theory Spec2Isabelle
  imports Complex_Main "HOL-Library.Char_ord" "HOL-Library.List_Lexorder"
    "HOL-Library.Multiset"
begin

section \<open>The store: tables of the point-of-sale database\<close>

text \<open>
  The schema is the one created by \<open>migration_001_initial_schema\<close> in
  \<open>electron/database/database.ts\<close>. A table whose rows are only ever read by primary key
  (\<open>users\<close>, \<open>products\<close>) is a map from the key to the row; a table that is scanned
  (\<open>sales\<close>, \<open>sale_items\<close>, \<open>stock_movements\<close>) is the list of its rows in insertion order.
  \<open>INTEGER\<close> columns are \<open>int\<close>, \<open>REAL\<close> columns are \<open>real\<close> (exact numbers: rounding,
  NaN and infinities of the JavaScript \<open>number\<close> are outside the model), a nullable column
  is an \<open>option\<close>, the 0/1 flag \<open>is_active\<close> is a \<open>bool\<close>. Of \<open>products\<close> and \<open>users\<close>
  the columns the sale engine never reads or writes (cost, category, barcode, description,
  image, password hash, the row timestamps) are left out.
\<close>

type_synonym ident = string

record timestamp =
  ts_date :: nat
  ts_time :: nat

datatype payment_method = Cash | Card | Transfer

datatype movement_type = SaleMovement | Adjustment | Restock

text \<open>
  The \<open>notes\<close> column of a stock movement holds either the caller's free text or the text
  \<open>Cancelacion de venta #n\<close> that \<open>cancel\<close> builds from the sale's daily number; the
  second is kept as a constructor carrying the number.
\<close>

datatype movement_note = NoteText string | CancellationOfSale int

record user =
  u_username :: string
  u_full_name :: string
  u_is_active :: bool

record product =
  p_name :: string
  p_price :: real
  p_stock :: int
  p_min_stock :: int
  p_is_active :: bool

record sale =
  s_id :: ident
  s_total :: real
  s_subtotal :: real
  s_tax :: real
  s_discount :: real
  s_payment_method :: payment_method
  s_cashier_id :: ident
  s_cashier_name :: string
  s_customer_name :: "string option"
  s_notes :: "string option"
  s_daily_number :: int
  s_is_active :: bool
  s_created_at :: timestamp

record sale_item =
  si_id :: ident
  si_sale_id :: ident
  si_product_id :: ident
  si_product_name :: string
  si_quantity :: int
  si_unit_price :: real
  si_total_price :: real

record stock_movement =
  sm_id :: ident
  sm_product_id :: ident
  sm_movement_type :: movement_type
  sm_quantity :: int
  sm_previous_stock :: int
  sm_new_stock :: int
  sm_reference_id :: "ident option"
  sm_notes :: "movement_note option"
  sm_created_by :: "ident option"
  sm_created_at :: timestamp

record database =
  users :: "ident \<rightharpoonup> user"
  products :: "ident \<rightharpoonup> product"
  sales :: "sale list"
  sale_items :: "sale_item list"
  stock_movements :: "stock_movement list"

section \<open>Requests, environment and outcomes\<close>

record sale_item_input =
  in_product_id :: ident
  in_product_name :: string
  in_quantity :: int
  in_unit_price :: real
  in_total_price :: real

record create_sale_input =
  csi_items :: "sale_item_input list"
  csi_subtotal :: real
  csi_total :: real
  csi_tax :: "real option"
  csi_discount :: "real option"
  csi_payment_method :: payment_method
  csi_cashier_id :: ident
  csi_cashier_name :: string
  csi_customer_name :: "string option"
  csi_notes :: "string option"

text \<open>
  What a call reads from outside the store: \<open>js_now\<close> is the value of \<open>new Date()\<close>,
  \<open>db_now\<close> the engine's \<open>CURRENT_TIMESTAMP\<close> (the default of every \<open>created_at\<close>), and
  \<open>generateId e k\<close> is the string returned by the \<open>k\<close>-th call of \<open>generateId()\<close> made
  during the operation (a time stamp and a random suffix in the source, so any string).
\<close>

record env =
  js_now :: timestamp
  db_now :: timestamp
  generateId :: "nat \<Rightarrow> ident"

text \<open>
  Every \<open>throw\<close> of the services is a constructor; an error raised by the store itself
  (\<open>SqliteError\<close>) carries the constraint that failed.
\<close>

datatype sql_constraint = PrimaryKey | ForeignKey

datatype error =
    SaleEmpty
  | TotalNotPositive
  | ProductNotFound string
  | InsufficientStock string int int
  | SaleNotFoundOrCancelled
  | ProductMissing
  | StockNegative
  | ConstraintFailed sql_constraint

text \<open>
  A piece of code running against the store returns its result, or the error it threw,
  together with the store as it stands at that point.
\<close>

type_synonym 'a outcome = "(error + 'a) \<times> database"

section \<open>Statements\<close>

text \<open>\<open>x || 0\<close> on an optional number and \<open>s || null\<close> on an optional string.\<close>

definition or_zero :: "real option \<Rightarrow> real" where
  "or_zero x = (case x of None \<Rightarrow> 0 | Some v \<Rightarrow> if v = 0 then 0 else v)"

definition or_null :: "string option \<Rightarrow> string option" where
  "or_null x = (case x of None \<Rightarrow> None | Some s \<Rightarrow> if s = [] then None else Some s)"

text \<open>
  \<open>INSERT\<close> statements. The connection runs with \<open>foreign_keys = ON\<close>, so an insert
  fails when the primary key is taken or a referenced row is missing.
\<close>

definition insert_sale :: "sale \<Rightarrow> database \<Rightarrow> error + database" where
  "insert_sale r d =
     (if s_id r \<in> set (map s_id (sales d)) then Inl (ConstraintFailed PrimaryKey)
      else if users d (s_cashier_id r) = None then Inl (ConstraintFailed ForeignKey)
      else Inr (d\<lparr>sales := sales d @ [r]\<rparr>))"

definition insert_sale_item :: "sale_item \<Rightarrow> database \<Rightarrow> error + database" where
  "insert_sale_item r d =
     (if si_id r \<in> set (map si_id (sale_items d)) then Inl (ConstraintFailed PrimaryKey)
      else if si_sale_id r \<notin> set (map s_id (sales d)) then Inl (ConstraintFailed ForeignKey)
      else if products d (si_product_id r) = None then Inl (ConstraintFailed ForeignKey)
      else Inr (d\<lparr>sale_items := sale_items d @ [r]\<rparr>))"

definition insert_stock_movement :: "stock_movement \<Rightarrow> database \<Rightarrow> error + database" where
  "insert_stock_movement r d =
     (if sm_id r \<in> set (map sm_id (stock_movements d)) then Inl (ConstraintFailed PrimaryKey)
      else if products d (sm_product_id r) = None then Inl (ConstraintFailed ForeignKey)
      else if (case sm_created_by r of None \<Rightarrow> False | Some u \<Rightarrow> users d u = None)
        then Inl (ConstraintFailed ForeignKey)
      else Inr (d\<lparr>stock_movements := stock_movements d @ [r]\<rparr>))"

text \<open>\<open>SELECT stock FROM products WHERE id = ?\<close>\<close>

definition getProductStock :: "database \<Rightarrow> ident \<Rightarrow> int option" where
  "getProductStock d pid = map_option p_stock (products d pid)"

text \<open>\<open>UPDATE products SET stock = stock + ? WHERE id = ?\<close> (with \<open>- ?\<close>: a negated amount).\<close>

definition add_stock :: "int \<Rightarrow> ident \<Rightarrow> database \<Rightarrow> database" where
  "add_stock n pid d =
     (case products d pid of
        None \<Rightarrow> d
      | Some p \<Rightarrow> d\<lparr>products := (products d)(pid \<mapsto> p\<lparr>p_stock := p_stock p + n\<rparr>)\<rparr>)"

text \<open>\<open>UPDATE products SET stock = ? WHERE id = ?\<close>\<close>

definition set_stock :: "int \<Rightarrow> ident \<Rightarrow> database \<Rightarrow> database" where
  "set_stock n pid d =
     (case products d pid of
        None \<Rightarrow> d
      | Some p \<Rightarrow> d\<lparr>products := (products d)(pid \<mapsto> p\<lparr>p_stock := n\<rparr>)\<rparr>)"

text \<open>
  \<open>SELECT daily_number FROM sales WHERE DATE(created_at) = DATE(?)
  ORDER BY daily_number DESC LIMIT 1\<close>
\<close>

definition select_last_daily_number :: "database \<Rightarrow> nat \<Rightarrow> int option" where
  "select_last_daily_number d today =
     (case rev (sort (map s_daily_number
                 (filter (\<lambda>s. ts_date (s_created_at s) = today) (sales d)))) of
        [] \<Rightarrow> None
      | n # _ \<Rightarrow> Some n)"

text \<open>\<open>SELECT * FROM sales WHERE id = ?\<close> and the same with \<open>AND is_active = 1\<close>\<close>

definition select_sale :: "database \<Rightarrow> ident \<Rightarrow> sale option" where
  "select_sale d sid = find (\<lambda>s. s_id s = sid) (sales d)"

definition select_active_sale :: "database \<Rightarrow> ident \<Rightarrow> sale option" where
  "select_active_sale d sid = find (\<lambda>s. s_id s = sid \<and> s_is_active s) (sales d)"

text \<open>
  \<open>SELECT * FROM sale_items WHERE sale_id = ?\<close>. The statement has no \<open>ORDER BY\<close>, and
  the engine answers it through the index \<open>idx_sale_items_composite\<close> on
  \<open>(sale_id, product_id)\<close>: the items of the sale come back by product id, compared
  byte by byte, and the items of one product in the order of their insertion.
\<close>

definition select_sale_items :: "database \<Rightarrow> ident \<Rightarrow> sale_item list" where
  "select_sale_items d sid =
     sort_key si_product_id (filter (\<lambda>i. si_sale_id i = sid) (sale_items d))"

text \<open>\<open>UPDATE sales SET is_active = 0 WHERE id = ?\<close>\<close>

definition deactivate_sale :: "ident \<Rightarrow> database \<Rightarrow> database" where
  "deactivate_sale sid d =
     d\<lparr>sales := map (\<lambda>s. if s_id s = sid then s\<lparr>s_is_active := False\<rparr> else s) (sales d)\<rparr>"

section \<open>Transactions\<close>

text \<open>
  \<open>withTransaction\<close> runs the callback inside \<open>db.transaction\<close>: when the callback
  throws, the store goes back to what it was at the start and the error is thrown again;
  otherwise the changes are committed.
\<close>

definition withTransaction :: "database \<Rightarrow> (database \<Rightarrow> 'a outcome) \<Rightarrow> 'a outcome" where
  "withTransaction d callback =
     (case callback d of
        (Inl err, _) \<Rightarrow> (Inl err, d)
      | (Inr v, d') \<Rightarrow> (Inr v, d'))"

section \<open>SalesService.create\<close>

text \<open>
  The loop over \<open>data.items\<close>. \<open>k\<close> counts the calls of \<open>generateId\<close> made so far: each
  item that passes its checks takes two ids, one for its row and one for its movement.
\<close>

fun process_items ::
  "env \<Rightarrow> ident \<Rightarrow> ident \<Rightarrow> nat \<Rightarrow> sale_item_input list \<Rightarrow> database \<Rightarrow> unit outcome" where
  "process_items e saleId cashier k [] d = (Inr (), d)"
| "process_items e saleId cashier k (item # rest) d =
     (case getProductStock d (in_product_id item) of
        None \<Rightarrow> (Inl (ProductNotFound (in_product_name item)), d)
      | Some stock \<Rightarrow>
          if stock < in_quantity item
          then (Inl (InsufficientStock (in_product_name item) stock (in_quantity item)), d)
          else
            (case insert_sale_item
                    \<lparr>si_id = generateId e k, si_sale_id = saleId,
                     si_product_id = in_product_id item,
                     si_product_name = in_product_name item,
                     si_quantity = in_quantity item,
                     si_unit_price = in_unit_price item,
                     si_total_price = in_total_price item\<rparr> d of
               Inl err \<Rightarrow> (Inl err, d)
             | Inr d1 \<Rightarrow>
                 (let previousStock = stock;
                      newStock = previousStock - in_quantity item;
                      d2 = add_stock (- in_quantity item) (in_product_id item) d1
                  in case insert_stock_movement
                            \<lparr>sm_id = generateId e (k + 1),
                             sm_product_id = in_product_id item,
                             sm_movement_type = SaleMovement,
                             sm_quantity = in_quantity item,
                             sm_previous_stock = previousStock,
                             sm_new_stock = newStock,
                             sm_reference_id = Some saleId,
                             sm_notes = None,
                             sm_created_by = Some cashier,
                             sm_created_at = db_now e\<rparr> d2 of
                       Inl err \<Rightarrow> (Inl err, d2)
                     | Inr d3 \<Rightarrow> process_items e saleId cashier (k + 2) rest d3)))"

definition sale_header :: "env \<Rightarrow> create_sale_input \<Rightarrow> int \<Rightarrow> sale" where
  "sale_header e data dailyNumber =
     \<lparr>s_id = generateId e 0,
      s_total = csi_total data,
      s_subtotal = csi_subtotal data,
      s_tax = or_zero (csi_tax data),
      s_discount = or_zero (csi_discount data),
      s_payment_method = csi_payment_method data,
      s_cashier_id = csi_cashier_id data,
      s_cashier_name = csi_cashier_name data,
      s_customer_name = or_null (csi_customer_name data),
      s_notes = or_null (csi_notes data),
      s_daily_number = dailyNumber,
      s_is_active = True,
      s_created_at = db_now e\<rparr>"

text \<open>The callback of \<open>create\<close>: steps 1 to 5 of the source.\<close>

definition create_callback ::
  "env \<Rightarrow> create_sale_input \<Rightarrow> database \<Rightarrow> (sale option \<times> int) outcome" where
  "create_callback e data d =
     (let today = ts_date (js_now e);
          dailyNumber = (case select_last_daily_number d today of
                           None \<Rightarrow> 1
                         | Some n \<Rightarrow> n + 1);
          saleId = generateId e 0
      in case insert_sale (sale_header e data dailyNumber) d of
           Inl err \<Rightarrow> (Inl err, d)
         | Inr d1 \<Rightarrow>
             (case process_items e saleId (csi_cashier_id data) 1 (csi_items data) d1 of
                (Inl err, d2) \<Rightarrow> (Inl err, d2)
              | (Inr _, d2) \<Rightarrow> (Inr (select_sale d2 saleId, dailyNumber), d2)))"

definition create :: "env \<Rightarrow> create_sale_input \<Rightarrow> database \<Rightarrow> (sale option \<times> int) outcome" where
  "create e data d =
     (if csi_items data = [] then (Inl SaleEmpty, d)
      else if csi_total data \<le> 0 then (Inl TotalNotPositive, d)
      else withTransaction d (create_callback e data))"

section \<open>SalesService.cancel\<close>

text \<open>
  The loop over the sale's items. An item whose product row is not found is passed over
  without a call of \<open>generateId\<close>.
\<close>

fun revert_items ::
  "env \<Rightarrow> ident \<Rightarrow> ident \<Rightarrow> sale \<Rightarrow> nat \<Rightarrow> sale_item list \<Rightarrow> database \<Rightarrow> unit outcome" where
  "revert_items e sid userId sale k [] d = (Inr (), d)"
| "revert_items e sid userId sale k (item # rest) d =
     (case getProductStock d (si_product_id item) of
        None \<Rightarrow> revert_items e sid userId sale k rest d
      | Some stock \<Rightarrow>
          (let previousStock = stock;
               newStock = previousStock + si_quantity item;
               d1 = add_stock (si_quantity item) (si_product_id item) d
           in case insert_stock_movement
                     \<lparr>sm_id = generateId e k,
                      sm_product_id = si_product_id item,
                      sm_movement_type = Adjustment,
                      sm_quantity = si_quantity item,
                      sm_previous_stock = previousStock,
                      sm_new_stock = newStock,
                      sm_reference_id = Some sid,
                      sm_notes = Some (CancellationOfSale (s_daily_number sale)),
                      sm_created_by = Some userId,
                      sm_created_at = db_now e\<rparr> d1 of
                Inl err \<Rightarrow> (Inl err, d1)
              | Inr d2 \<Rightarrow> revert_items e sid userId sale (k + 1) rest d2))"

definition cancel_callback :: "env \<Rightarrow> ident \<Rightarrow> ident \<Rightarrow> database \<Rightarrow> unit outcome" where
  "cancel_callback e sid userId d =
     (case select_active_sale d sid of
        None \<Rightarrow> (Inl SaleNotFoundOrCancelled, d)
      | Some sale \<Rightarrow>
          (case revert_items e sid userId sale 0 (select_sale_items d sid) d of
             (Inl err, d1) \<Rightarrow> (Inl err, d1)
           | (Inr _, d1) \<Rightarrow> (Inr (), deactivate_sale sid d1)))"

definition cancel :: "env \<Rightarrow> ident \<Rightarrow> ident \<Rightarrow> database \<Rightarrow> unit outcome" where
  "cancel e sid userId d = withTransaction d (cancel_callback e sid userId)"

section \<open>ProductService.adjustStock\<close>

definition adjustStock_callback ::
  "env \<Rightarrow> ident \<Rightarrow> int \<Rightarrow> string \<Rightarrow> ident \<Rightarrow> database \<Rightarrow> unit outcome" where
  "adjustStock_callback e productId quantity reason userId d =
     (case products d productId of
        None \<Rightarrow> (Inl ProductMissing, d)
      | Some product \<Rightarrow>
          (let previousStock = p_stock product;
               newStock = previousStock + quantity
           in if newStock < 0 then (Inl StockNegative, d)
              else
                (let d1 = set_stock newStock productId d
                 in case insert_stock_movement
                           \<lparr>sm_id = generateId e 0,
                            sm_product_id = productId,
                            sm_movement_type = Adjustment,
                            sm_quantity = quantity,
                            sm_previous_stock = previousStock,
                            sm_new_stock = newStock,
                            sm_reference_id = None,
                            sm_notes = Some (NoteText reason),
                            sm_created_by = Some userId,
                            sm_created_at = db_now e\<rparr> d1 of
                      Inl err \<Rightarrow> (Inl err, d1)
                    | Inr d2 \<Rightarrow> (Inr (), d2))))"

definition adjustStock ::
  "env \<Rightarrow> ident \<Rightarrow> int \<Rightarrow> string \<Rightarrow> ident \<Rightarrow> database \<Rightarrow> unit outcome" where
  "adjustStock e productId quantity reason userId d =
     withTransaction d (adjustStock_callback e productId quantity reason userId)"

section \<open>Vocabulary of the statements\<close>

text \<open>
  The rows that the loop of \<open>create\<close> writes for one line item, and the store after a
  line item has been accepted: \<open>k\<close> is the number of ids generated before it and \<open>p\<close> the
  product row that its stock check read.
\<close>

definition item_row :: "env \<Rightarrow> ident \<Rightarrow> nat \<Rightarrow> sale_item_input \<Rightarrow> sale_item" where
  "item_row e saleId k item =
     \<lparr>si_id = generateId e k, si_sale_id = saleId,
      si_product_id = in_product_id item,
      si_product_name = in_product_name item,
      si_quantity = in_quantity item,
      si_unit_price = in_unit_price item,
      si_total_price = in_total_price item\<rparr>"

definition sale_movement ::
  "env \<Rightarrow> ident \<Rightarrow> ident \<Rightarrow> nat \<Rightarrow> sale_item_input \<Rightarrow> int \<Rightarrow> stock_movement" where
  "sale_movement e saleId cashier k item stock =
     \<lparr>sm_id = generateId e k,
      sm_product_id = in_product_id item,
      sm_movement_type = SaleMovement,
      sm_quantity = in_quantity item,
      sm_previous_stock = stock,
      sm_new_stock = stock - in_quantity item,
      sm_reference_id = Some saleId,
      sm_notes = None,
      sm_created_by = Some cashier,
      sm_created_at = db_now e\<rparr>"

definition after_item ::
  "env \<Rightarrow> ident \<Rightarrow> ident \<Rightarrow> nat \<Rightarrow> sale_item_input \<Rightarrow> product \<Rightarrow> database \<Rightarrow> database" where
  "after_item e saleId cashier k item p d =
     d\<lparr>sale_items := sale_items d @ [item_row e saleId k item],
       products := (products d)(in_product_id item \<mapsto>
                      p\<lparr>p_stock := p_stock p - in_quantity item\<rparr>),
       stock_movements := stock_movements d @
                      [sale_movement e saleId cashier (k + 1) item (p_stock p)]\<rparr>"

definition item_accepted ::
  "env \<Rightarrow> ident \<Rightarrow> ident \<Rightarrow> nat \<Rightarrow> sale_item_input \<Rightarrow> product \<Rightarrow> database \<Rightarrow> bool" where
  "item_accepted e saleId cashier k item p d \<longleftrightarrow>
     products d (in_product_id item) = Some p \<and> in_quantity item \<le> p_stock p \<and>
     generateId e k \<notin> set (map si_id (sale_items d)) \<and>
     saleId \<in> set (map s_id (sales d)) \<and>
     generateId e (k + 1) \<notin> set (map sm_id (stock_movements d)) \<and>
     users d cashier \<noteq> None"

text \<open>
  The row that the loop of \<open>cancel\<close> writes for one item of the sale, and the store
  after that item has been reverted.
\<close>

definition cancel_movement ::
  "env \<Rightarrow> ident \<Rightarrow> ident \<Rightarrow> sale \<Rightarrow> nat \<Rightarrow> sale_item \<Rightarrow> int \<Rightarrow> stock_movement" where
  "cancel_movement e sid userId sale k item stock =
     \<lparr>sm_id = generateId e k,
      sm_product_id = si_product_id item,
      sm_movement_type = Adjustment,
      sm_quantity = si_quantity item,
      sm_previous_stock = stock,
      sm_new_stock = stock + si_quantity item,
      sm_reference_id = Some sid,
      sm_notes = Some (CancellationOfSale (s_daily_number sale)),
      sm_created_by = Some userId,
      sm_created_at = db_now e\<rparr>"

definition after_revert ::
  "env \<Rightarrow> ident \<Rightarrow> ident \<Rightarrow> sale \<Rightarrow> nat \<Rightarrow> sale_item \<Rightarrow> product \<Rightarrow> database \<Rightarrow> database" where
  "after_revert e sid userId sale k item p d =
     d\<lparr>products := (products d)(si_product_id item \<mapsto>
                      p\<lparr>p_stock := p_stock p + si_quantity item\<rparr>),
       stock_movements := stock_movements d @
                      [cancel_movement e sid userId sale k item (p_stock p)]\<rparr>"

definition revert_accepted ::
  "env \<Rightarrow> ident \<Rightarrow> nat \<Rightarrow> sale_item \<Rightarrow> product \<Rightarrow> database \<Rightarrow> bool" where
  "revert_accepted e userId k item p d \<longleftrightarrow>
     products d (si_product_id item) = Some p \<and>
     generateId e k \<notin> set (map sm_id (stock_movements d)) \<and>
     users d userId \<noteq> None"

text \<open>The items of a sale whose product row is still in the store.\<close>

definition present_items :: "database \<Rightarrow> sale_item list \<Rightarrow> sale_item list" where
  "present_items d rows = filter (\<lambda>row. products d (si_product_id row) \<noteq> None) rows"

text \<open>The total quantity that the line items of a request ask of one product.\<close>

definition requested :: "ident \<Rightarrow> sale_item_input list \<Rightarrow> int" where
  "requested pid items =
     sum_list (map in_quantity (filter (\<lambda>item. in_product_id item = pid) items))"

text \<open>The same for the stored items of a sale.\<close>

definition sold :: "ident \<Rightarrow> sale_item list \<Rightarrow> int" where
  "sold pid rows =
     sum_list (map si_quantity (filter (\<lambda>row. si_product_id row = pid) rows))"

text \<open>The daily number that \<open>create\<close> computes from the sales of the day.\<close>

definition next_daily_number :: "database \<Rightarrow> nat \<Rightarrow> int" where
  "next_daily_number d today =
     (case select_last_daily_number d today of None \<Rightarrow> 1 | Some n \<Rightarrow> n + 1)"

text \<open>The sales whose \<open>created_at\<close> falls on a calendar date.\<close>

definition sales_of_day :: "database \<Rightarrow> nat \<Rightarrow> sale list" where
  "sales_of_day d day = filter (\<lambda>s. ts_date (s_created_at s) = day) (sales d)"

text \<open>Every identifier that is the primary key of a row of a scanned table.\<close>

definition used_ids :: "database \<Rightarrow> ident set" where
  "used_ids d =
     set (map s_id (sales d)) \<union> set (map si_id (sale_items d)) \<union>
     set (map sm_id (stock_movements d))"

text \<open>
  The \<open>m\<close> identifiers generated from the \<open>k\<close>-th on are pairwise different and new to
  the store.
\<close>

definition fresh_ids :: "env \<Rightarrow> database \<Rightarrow> nat \<Rightarrow> nat \<Rightarrow> bool" where
  "fresh_ids e d k m \<longleftrightarrow>
     inj_on (generateId e) {k ..< k + m} \<and>
     (\<forall>i \<in> {k ..< k + m}. generateId e i \<notin> used_ids d)"

text \<open>
  A request gets as far as the checks of one of its line items: the total is positive,
  the cashier is a user, the identifiers generated for the header and for the earlier
  lines are fresh, and every earlier line finds its product and enough stock.
\<close>

definition reaches_line ::
  "env \<Rightarrow> create_sale_input \<Rightarrow> database \<Rightarrow>
   sale_item_input list \<Rightarrow> sale_item_input \<Rightarrow> sale_item_input list \<Rightarrow> bool" where
  "reaches_line e data d pre item post \<longleftrightarrow>
     csi_items data = pre @ item # post \<and> 0 < csi_total data \<and>
     users d (csi_cashier_id data) \<noteq> None \<and> fresh_ids e d 0 (1 + 2 * length pre) \<and>
     (\<forall>pre' x post'. pre = pre' @ x # post' \<longrightarrow>
        (\<exists>px. products d (in_product_id x) = Some px \<and>
              in_quantity x \<le> p_stock px - requested (in_product_id x) pre'))"

text \<open>
  Referential integrity of \<open>sale_items.sale_id\<close>, which the store maintains
  (\<open>FOREIGN KEY (sale_id) REFERENCES sales(id)\<close>).
\<close>

definition items_reference_sales :: "database \<Rightarrow> bool" where
  "items_reference_sales d \<longleftrightarrow> set (map si_sale_id (sale_items d)) \<subseteq> set (map s_id (sales d))"

section \<open>Sequences of operations\<close>

text \<open>
  The three mutating operations of the engine as one type, each with the environment it
  runs in, and the run of a sequence of them in which every operation succeeds.
\<close>

datatype operation =
    CreateSale env create_sale_input
  | Cancel env ident ident
  | AdjustStock env ident int string ident

fun run_operation :: "operation \<Rightarrow> database \<Rightarrow> database option" where
  "run_operation (CreateSale e data) d =
     (case create e data d of (Inl err, _) \<Rightarrow> None | (Inr _, d') \<Rightarrow> Some d')"
| "run_operation (Cancel e sid userId) d =
     (case cancel e sid userId d of (Inl err, _) \<Rightarrow> None | (Inr _, d') \<Rightarrow> Some d')"
| "run_operation (AdjustStock e productId quantity reason userId) d =
     (case adjustStock e productId quantity reason userId d of
        (Inl err, _) \<Rightarrow> None
      | (Inr _, d') \<Rightarrow> Some d')"

fun run_all :: "operation list \<Rightarrow> database \<Rightarrow> database option" where
  "run_all [] d = Some d"
| "run_all (op # ops) d =
     (case run_operation op d of None \<Rightarrow> None | Some d' \<Rightarrow> run_all ops d')"

text \<open>No product has a negative stock.\<close>

definition stock_nonneg :: "database \<Rightarrow> bool" where
  "stock_nonneg d \<longleftrightarrow> (\<forall>pid p. products d pid = Some p \<longrightarrow> 0 \<le> p_stock p)"

text \<open>No stored sale item, and no line of a request to create a sale, has a negative quantity.\<close>

definition items_nonneg :: "database \<Rightarrow> bool" where
  "items_nonneg d \<longleftrightarrow> (\<forall>row \<in> set (sale_items d). 0 \<le> si_quantity row)"

fun lines_nonneg :: "operation \<Rightarrow> bool" where
  "lines_nonneg (CreateSale e data) = (\<forall>x \<in> set (csi_items data). 0 \<le> in_quantity x)"
| "lines_nonneg _ = True"

section \<open>Example data\<close>

definition ex_gen :: "string \<Rightarrow> nat \<Rightarrow> ident" where
  "ex_gen tag k = tag @ replicate k (CHR ''x'')"

definition ex_env :: "string \<Rightarrow> nat \<Rightarrow> env" where
  "ex_env tag day =
     \<lparr>js_now = \<lparr>ts_date = day, ts_time = 0\<rparr>,
      db_now = \<lparr>ts_date = day, ts_time = 0\<rparr>,
      generateId = ex_gen tag\<rparr>"

definition ex_admin :: user where
  "ex_admin = \<lparr>u_username = ''admin'', u_full_name = ''Administrador'', u_is_active = True\<rparr>"

definition ex_product :: "string \<Rightarrow> int \<Rightarrow> bool \<Rightarrow> product" where
  "ex_product name stock active =
     \<lparr>p_name = name, p_price = 3, p_stock = stock, p_min_stock = 5, p_is_active = active\<rparr>"

definition ex_db :: database where
  "ex_db =
     \<lparr>users = [''admin-001'' \<mapsto> ex_admin],
      products = [''p1'' \<mapsto> ex_product ''Cuaderno'' 10 True],
      sales = [], sale_items = [], stock_movements = []\<rparr>"

definition ex_item :: "ident \<Rightarrow> string \<Rightarrow> int \<Rightarrow> sale_item_input" where
  "ex_item pid name q =
     \<lparr>in_product_id = pid, in_product_name = name, in_quantity = q,
      in_unit_price = 3, in_total_price = 3 * real_of_int q\<rparr>"

definition ex_req :: "sale_item_input list \<Rightarrow> real \<Rightarrow> create_sale_input" where
  "ex_req its amount =
     \<lparr>csi_items = its, csi_subtotal = amount, csi_total = amount,
      csi_tax = None, csi_discount = None, csi_payment_method = Cash,
      csi_cashier_id = ''admin-001'', csi_cashier_name = ''Administrador'',
      csi_customer_name = None, csi_notes = None\<rparr>"

text \<open>A day with two earlier sales, the later one cancelled, and a sale of the day before.\<close>

definition ex_sale :: "ident \<Rightarrow> int \<Rightarrow> bool \<Rightarrow> nat \<Rightarrow> sale" where
  "ex_sale sid n active day =
     \<lparr>s_id = sid, s_total = 9, s_subtotal = 9, s_tax = 0, s_discount = 0,
      s_payment_method = Cash, s_cashier_id = ''admin-001'',
      s_cashier_name = ''Administrador'', s_customer_name = None, s_notes = None,
      s_daily_number = n, s_is_active = active,
      s_created_at = \<lparr>ts_date = day, ts_time = 0\<rparr>\<rparr>"

definition ex_db_busy :: database where
  "ex_db_busy =
     ex_db\<lparr>sales := [ex_sale ''s1'' 1 True 1, ex_sale ''s2'' 2 False 1, ex_sale ''s0'' 7 True 0]\<rparr>"

text \<open>
  A request whose amounts do not add up, and whose line names the product differently
  from the catalogue.
\<close>

definition ex_req_odd :: create_sale_input where
  "ex_req_odd =
     \<lparr>csi_items = [\<lparr>in_product_id = ''p1'', in_product_name = ''Libreta'', in_quantity = 2,
                     in_unit_price = 4, in_total_price = 50\<rparr>],
      csi_subtotal = 7, csi_total = 100, csi_tax = Some 1, csi_discount = None,
      csi_payment_method = Card, csi_cashier_id = ''admin-001'',
      csi_cashier_name = ''Administrador'', csi_customer_name = None, csi_notes = None\<rparr>"

text \<open>
  The product of \<open>ex_db\<close> sold three times in sale \<open>s1\<close> and then soft-deleted; and a
  sale of three products, entered as \<open>p3\<close>, \<open>p1\<close>, \<open>p2\<close>, when the row of \<open>p1\<close> is gone
  altogether.
\<close>

definition ex_row :: "ident \<Rightarrow> ident \<Rightarrow> ident \<Rightarrow> int \<Rightarrow> sale_item" where
  "ex_row rid sid pid q =
     \<lparr>si_id = rid, si_sale_id = sid, si_product_id = pid, si_product_name = ''Cuaderno'',
      si_quantity = q, si_unit_price = 3, si_total_price = 3 * real_of_int q\<rparr>"

definition ex_db_soft_deleted :: database where
  "ex_db_soft_deleted =
     ex_db\<lparr>products := [''p1'' \<mapsto> ex_product ''Cuaderno'' 7 False],
           sales := [ex_sale ''s1'' 1 True 1],
           sale_items := [ex_row ''i1'' ''s1'' ''p1'' 3]\<rparr>"

definition ex_db_hard_deleted :: database where
  "ex_db_hard_deleted =
     ex_db\<lparr>products := [''p2'' \<mapsto> ex_product ''Lapicero'' 4 True,
                         ''p3'' \<mapsto> ex_product ''Borrador'' 1 True],
           sales := [ex_sale ''s1'' 1 True 1],
           sale_items := [ex_row ''i1'' ''s1'' ''p3'' 1, ex_row ''i2'' ''s1'' ''p1'' 3,
                          ex_row ''i3'' ''s1'' ''p2'' 2]\<rparr>"

text \<open>The busy day with a second product in the catalogue.\<close>

definition ex_db_two :: database where
  "ex_db_two =
     ex_db_busy\<lparr>products := [''p1'' \<mapsto> ex_product ''Cuaderno'' 10 True,
                              ''p2'' \<mapsto> ex_product ''Lapicero'' 4 True]\<rparr>"

text \<open>
  The busy day with a sale item and a ledger row whose ids are the ones that the
  generators \<open>a\<close> and \<open>b\<close> will produce for the first line of a sale.
\<close>

definition ex_move :: "ident \<Rightarrow> ident \<Rightarrow> stock_movement" where
  "ex_move mid pid =
     \<lparr>sm_id = mid, sm_product_id = pid, sm_movement_type = Restock, sm_quantity = 1,
      sm_previous_stock = 9, sm_new_stock = 10, sm_reference_id = None, sm_notes = None,
      sm_created_by = None, sm_created_at = \<lparr>ts_date = 0, ts_time = 0\<rparr>\<rparr>"

definition ex_db_taken :: database where
  "ex_db_taken =
     ex_db_busy\<lparr>sale_items := [ex_row ''ax'' ''s1'' ''p1'' 1],
                stock_movements := [ex_move ''bxx'' ''p1'']\<rparr>"

section \<open>Transactions and the loop of create\<close>

lemma withTransaction_Inl:
  "fst (callback d) = Inl err \<Longrightarrow> withTransaction d callback = (Inl err, d)"
  by (cases "callback d") (simp add: withTransaction_def)

lemma withTransaction_Inr:
  "callback d = (Inr v, d') \<Longrightarrow> withTransaction d callback = (Inr v, d')"
  by (simp add: withTransaction_def)

lemma withTransaction_Inr_iff:
  "withTransaction d callback = (Inr v, d') \<longleftrightarrow> callback d = (Inr v, d')"
  by (cases "callback d") (auto simp: withTransaction_def split: sum.splits)

lemma withTransaction_rollback:
  "fst (withTransaction d callback) = Inl err \<Longrightarrow> snd (withTransaction d callback) = d"
  by (cases "callback d") (auto simp: withTransaction_def split: sum.splits)

lemma process_items_Cons_accepted:
  assumes "item_accepted e saleId cashier k item p d"
  shows "process_items e saleId cashier k (item # rest) d =
           process_items e saleId cashier (k + 2) rest (after_item e saleId cashier k item p d)"
  using assms
  by (auto simp: item_accepted_def getProductStock_def insert_sale_item_def add_stock_def
      insert_stock_movement_def after_item_def item_row_def sale_movement_def Let_def)

lemma process_items_Cons_Inr:
  assumes "process_items e saleId cashier k (item # rest) d = (Inr u, d')"
  shows "\<exists>p. item_accepted e saleId cashier k item p d \<and>
           process_items e saleId cashier (k + 2) rest (after_item e saleId cashier k item p d) = (Inr u, d')"
proof -
  from assms obtain p where p: "products d (in_product_id item) = Some p"
    by (cases "products d (in_product_id item)") (auto simp: getProductStock_def)
  from assms p have q: "in_quantity item \<le> p_stock p"
    by (auto simp: getProductStock_def split: if_splits)
  from assms p q have acc: "item_accepted e saleId cashier k item p d"
    by (auto simp: item_accepted_def getProductStock_def insert_sale_item_def add_stock_def
        insert_stock_movement_def Let_def split: if_splits sum.splits option.splits)
  with assms process_items_Cons_accepted[OF acc, of rest] show ?thesis by auto
qed

lemma after_item_simps:
  "users (after_item e saleId cashier k item p d) = users d"
  "sales (after_item e saleId cashier k item p d) = sales d"
  "sale_items (after_item e saleId cashier k item p d) = sale_items d @ [item_row e saleId k item]"
  "products (after_item e saleId cashier k item p d) =
     (products d)(in_product_id item \<mapsto> p\<lparr>p_stock := p_stock p - in_quantity item\<rparr>)"
  "stock_movements (after_item e saleId cashier k item p d) =
     stock_movements d @ [sale_movement e saleId cashier (k + 1) item (p_stock p)]"
  by (simp_all add: after_item_def)

lemma process_items_Inr_tables:
  "process_items e saleId cashier k items d = (Inr u, d') \<Longrightarrow>
     users d' = users d \<and> sales d' = sales d"
proof (induction items arbitrary: d k)
  case Nil
  then show ?case by simp
next
  case (Cons item rest)
  from process_items_Cons_Inr[OF Cons.prems] obtain p where
    rec: "process_items e saleId cashier (k + 2) rest (after_item e saleId cashier k item p d) = (Inr u, d')"
    by blast
  from Cons.IH[OF rec] show ?case by (simp add: after_item_simps)
qed

lemma process_items_Inr_sale_items:
  "process_items e saleId cashier k items d = (Inr u, d') \<Longrightarrow>
     \<exists>rows. sale_items d' = sale_items d @ rows \<and>
       list_all2 (\<lambda>item row. \<exists>j. row = item_row e saleId j item) items rows"
proof (induction items arbitrary: d k)
  case Nil
  then show ?case by simp
next
  case (Cons item rest)
  from process_items_Cons_Inr[OF Cons.prems] obtain p where
    rec: "process_items e saleId cashier (k + 2) rest (after_item e saleId cashier k item p d) = (Inr u, d')"
    by blast
  from Cons.IH[OF rec] obtain rows where
    rows: "sale_items d' = sale_items (after_item e saleId cashier k item p d) @ rows"
      "list_all2 (\<lambda>item row. \<exists>j. row = item_row e saleId j item) rest rows"
    by blast
  have "sale_items d' = sale_items d @ (item_row e saleId k item # rows)"
    using rows(1) by (simp add: after_item_simps)
  moreover have "list_all2 (\<lambda>item row. \<exists>j. row = item_row e saleId j item) (item # rest) (item_row e saleId k item # rows)"
    using rows(2) by auto
  ultimately show ?case by blast
qed

lemma requested_Nil [simp]: "requested pid [] = 0"
  by (simp add: requested_def)

lemma requested_Cons [simp]:
  "requested pid (item # rest) =
     (if in_product_id item = pid then in_quantity item else 0) + requested pid rest"
  by (simp add: requested_def)

lemma requested_append [simp]:
  "requested pid (xs @ ys) = requested pid xs + requested pid ys"
  by (simp add: requested_def)

lemma process_items_Inr_products:
  "process_items e saleId cashier k items d = (Inr u, d') \<Longrightarrow>
     products d' pid =
       map_option (\<lambda>p. p\<lparr>p_stock := p_stock p - requested pid items\<rparr>) (products d pid)"
proof (induction items arbitrary: d k)
  case Nil
  then show ?case by (simp add: option.map_ident)
next
  case (Cons item rest)
  from process_items_Cons_Inr[OF Cons.prems] obtain p where
    acc: "item_accepted e saleId cashier k item p d" and
    rec: "process_items e saleId cashier (k + 2) rest (after_item e saleId cashier k item p d) = (Inr u, d')"
    by blast
  from acc have p: "products d (in_product_id item) = Some p"
    by (simp add: item_accepted_def)
  show ?case
    using Cons.IH[OF rec] p
    by (auto simp: after_item_simps diff_diff_eq)
qed

lemma process_items_Inr_checks:
  "process_items e saleId cashier k items d = (Inr u, d') \<Longrightarrow>
     items = pre @ item # post \<Longrightarrow>
     \<exists>p. products d (in_product_id item) = Some p \<and>
         in_quantity item \<le> p_stock p - requested (in_product_id item) pre"
proof (induction pre arbitrary: items d k)
  case Nil
  with process_items_Cons_Inr[of e saleId cashier k item post d u d'] show ?case
    by (auto simp: item_accepted_def)
next
  case (Cons x pre)
  from Cons.prems have run: "process_items e saleId cashier k (x # (pre @ item # post)) d = (Inr u, d')"
    by simp
  from process_items_Cons_Inr[OF run] obtain p where
    acc: "item_accepted e saleId cashier k x p d" and
    rec: "process_items e saleId cashier (k + 2) (pre @ item # post) (after_item e saleId cashier k x p d) = (Inr u, d')"
    by blast
  from acc have p: "products d (in_product_id x) = Some p"
    by (simp add: item_accepted_def)
  from Cons.IH[OF rec refl] obtain p' where
    p': "products (after_item e saleId cashier k x p d) (in_product_id item) = Some p'"
      "in_quantity item \<le> p_stock p' - requested (in_product_id item) pre"
    by blast
  show ?case
  proof (cases "in_product_id x = in_product_id item")
    case True
    with p p' show ?thesis by (auto simp: after_item_simps)
  next
    case False
    with p p' show ?thesis by (auto simp: after_item_simps)
  qed
qed

lemma process_items_Inr_covers:
  assumes "process_items e saleId cashier k items d = (Inr u, d')"
    and "pid \<in> set (map in_product_id items)"
  shows "\<exists>p. products d pid = Some p \<and> requested pid items \<le> p_stock p"
proof -
  from assms(2) have "\<exists>item \<in> set items. in_product_id item = pid" by auto
  from split_list_last_prop[OF this] obtain pre item post where
    split: "items = pre @ item # post" "in_product_id item = pid" "\<forall>z \<in> set post. in_product_id z \<noteq> pid"
    by blast
  from split(3) have "requested pid post = 0"
    by (induction post) auto
  with process_items_Inr_checks[OF assms(1) split(1)] split show ?thesis
    by auto
qed

section \<open>The whole of create\<close>

lemma insert_sale_Inr:
  "insert_sale r d = Inr d1 \<Longrightarrow>
     s_id r \<notin> set (map s_id (sales d)) \<and> users d (s_cashier_id r) \<noteq> None \<and>
     d1 = d\<lparr>sales := sales d @ [r]\<rparr>"
  by (auto simp: insert_sale_def split: if_splits)

lemma create_Inr:
  assumes "create e data d = (Inr r, d')"
  shows "csi_items data \<noteq> [] \<and> 0 < csi_total data \<and>
     (\<exists>d1. insert_sale (sale_header e data (next_daily_number d (ts_date (js_now e)))) d = Inr d1 \<and>
        process_items e (generateId e 0) (csi_cashier_id data) 1 (csi_items data) d1 = (Inr (), d') \<and>
        r = (select_sale d' (generateId e 0), next_daily_number d (ts_date (js_now e))))"
proof -
  from assms have v: "csi_items data \<noteq> []" "0 < csi_total data"
    by (auto simp: create_def split: if_splits)
  with assms have cb: "create_callback e data d = (Inr r, d')"
    by (simp add: create_def withTransaction_Inr_iff)
  then show ?thesis
    using v
    by (auto simp: create_callback_def next_daily_number_def Let_def
        split: sum.splits prod.splits)
qed

lemma create_rollback:
  "fst (create e data d) = Inl err \<Longrightarrow> snd (create e data d) = d"
  by (auto simp: create_def withTransaction_rollback split: if_splits)

lemma find_append_new:
  "\<forall>x \<in> set xs. \<not> P x \<Longrightarrow> P y \<Longrightarrow> find P (xs @ [y]) = Some y"
  by (induction xs) auto

lemma create_Inr_header:
  assumes "create e data d = (Inr (sale, n), d')"
  shows "n = next_daily_number d (ts_date (js_now e)) \<and>
         sale = Some (sale_header e data n) \<and>
         sales d' = sales d @ [sale_header e data n] \<and>
         generateId e 0 \<notin> set (map s_id (sales d)) \<and>
         users d' = users d"
proof -
  let ?n = "next_daily_number d (ts_date (js_now e))"
  from create_Inr[OF assms] obtain d1 where
    ins: "insert_sale (sale_header e data ?n) d = Inr d1" and
    run: "process_items e (generateId e 0) (csi_cashier_id data) 1 (csi_items data) d1 = (Inr (), d')" and
    res: "(sale, n) = (select_sale d' (generateId e 0), ?n)"
    by blast
  from insert_sale_Inr[OF ins] have
    new: "generateId e 0 \<notin> set (map s_id (sales d))" and
    d1: "d1 = d\<lparr>sales := sales d @ [sale_header e data ?n]\<rparr>"
    by (simp_all add: sale_header_def)
  from process_items_Inr_tables[OF run] d1 have
    tabs: "sales d' = sales d @ [sale_header e data ?n]" "users d' = users d"
    by simp_all
  from new have "\<forall>s \<in> set (sales d). \<not> s_id s = generateId e 0"
    by force
  then have "select_sale d' (generateId e 0) = Some (sale_header e data ?n)"
    unfolding select_sale_def tabs(1)
    by (rule find_append_new) (simp add: sale_header_def)
  with res tabs new show ?thesis by simp
qed

section \<open>The daily number\<close>

lemma hd_rev_sort_Max:
  fixes xs :: "int list"
  assumes "xs \<noteq> []"
  shows "rev (sort xs) = Max (set xs) # tl (rev (sort xs))"
proof -
  let ?ys = "sort xs"
  from assms have ne: "?ys \<noteq> []"
    by (metis length_0_conv length_sort)
  from ne obtain zs z where zs: "?ys = zs @ [z]"
    by (cases ?ys rule: rev_cases) auto
  have "sorted (zs @ [z])"
    using sorted_sort[of xs] zs by simp
  then have "\<forall>y \<in> set (zs @ [z]). y \<le> z"
    by (auto simp: sorted_append)
  then have "\<forall>y \<in> set ?ys. y \<le> last ?ys"
    using zs by simp
  moreover have "last ?ys \<in> set ?ys"
    using ne by (rule last_in_set)
  ultimately have "Max (set ?ys) = last ?ys"
    by (intro Max_eqI) auto
  then have "Max (set xs) = last ?ys" by simp
  moreover have "rev ?ys = last ?ys # tl (rev ?ys)"
    using ne by (cases ?ys rule: rev_cases) auto
  ultimately show ?thesis by simp
qed

lemma select_last_daily_number_Max:
  "select_last_daily_number d day =
     (if sales_of_day d day = [] then None
      else Some (Max (set (map s_daily_number (sales_of_day d day)))))"
proof (cases "sales_of_day d day = []")
  case True
  then show ?thesis
    by (simp add: select_last_daily_number_def sales_of_day_def)
next
  case False
  then have "map s_daily_number (sales_of_day d day) \<noteq> []" by simp
  from hd_rev_sort_Max[OF this] False show ?thesis
    unfolding select_last_daily_number_def sales_of_day_def
    by (metis (no_types, lifting) list.simps(5))
qed

lemma next_daily_number_Max:
  "next_daily_number d day =
     (if sales_of_day d day = [] then 1
      else Max (set (map s_daily_number (sales_of_day d day))) + 1)"
  by (simp add: next_daily_number_def select_last_daily_number_Max)

lemma create_Inr_sales_of_day:
  assumes "create e data d = (Inr (sale, n), d')"
  shows "sales_of_day d' day =
           sales_of_day d day @ (if ts_date (db_now e) = day then [sale_header e data n] else [])"
  using create_Inr_header[OF assms]
  by (simp add: sales_of_day_def sale_header_def)

lemma outcomeI: "fst r = x \<Longrightarrow> r = (x, snd r)"
  by auto

lemmas statement_defs =
  or_zero_def or_null_def insert_sale_def insert_sale_item_def insert_stock_movement_def
  getProductStock_def add_stock_def set_stock_def select_last_daily_number_def
  select_sale_def select_active_sale_def select_sale_items_def deactivate_sale_def

lemmas service_defs =
  withTransaction_def sale_header_def create_callback_def create_def
  cancel_callback_def cancel_def adjustStock_callback_def adjustStock_def Let_def

lemmas ex_defs =
  ex_gen_def ex_env_def ex_admin_def ex_product_def ex_db_def ex_item_def ex_req_def
  ex_sale_def ex_db_busy_def ex_req_odd_def ex_row_def ex_db_soft_deleted_def
  ex_db_hard_deleted_def ex_db_two_def ex_move_def ex_db_taken_def

lemma ex_gen_inj: "inj_on (ex_gen tag) A"
  by (auto simp: inj_on_def ex_gen_def)

section \<open>Validation of a sale request\<close>

text \<open>
  C6. A request with no line item, or with a total that is not positive, is refused
  with the validation error of its check, and the store comes back as it was: no sale
  header, no sale item, no stock change, no ledger row.
\<close>

theorem create_validation:
  assumes "csi_items data = [] \<or> csi_total data \<le> 0"
  shows "create e data d =
           (Inl (if csi_items data = [] then SaleEmpty else TotalNotPositive), d)"
  using assms by (auto simp: create_def)

theorem create_validation_witness:
  "create (ex_env ''a'' 1) (ex_req [] 9) ex_db = (Inl SaleEmpty, ex_db) \<and>
   create (ex_env ''a'' 1) (ex_req [ex_item ''p1'' ''Cuaderno'' 3] 0) ex_db
     = (Inl TotalNotPositive, ex_db)"
proof -
  have h1: "csi_items (ex_req [] 9) = [] \<or> csi_total (ex_req [] 9) \<le> 0"
    by (simp add: ex_req_def)
  have h2: "csi_items (ex_req [ex_item ''p1'' ''Cuaderno'' 3] 0) = [] \<or>
            csi_total (ex_req [ex_item ''p1'' ''Cuaderno'' 3] 0) \<le> 0"
    by (simp add: ex_req_def)
  show ?thesis
    using create_validation[OF h1, of "ex_env ''a'' 1" ex_db]
      create_validation[OF h2, of "ex_env ''a'' 1" ex_db]
    by (simp add: ex_req_def)
qed

section \<open>Cancelling a sale that is missing or already cancelled\<close>

text \<open>
  C8. When no sale has the given id, or the sale with that id is inactive, \<open>cancel\<close>
  fails with its not-found-or-already-cancelled error and the store comes back as it
  was.
\<close>

theorem cancel_missing_or_inactive:
  assumes "\<forall>s \<in> set (sales d). s_id s = sid \<longrightarrow> \<not> s_is_active s"
  shows "cancel e sid userId d = (Inl SaleNotFoundOrCancelled, d)"
proof -
  from assms have "select_active_sale d sid = None"
    by (auto simp: select_active_sale_def find_None_iff)
  then show ?thesis
    by (simp add: cancel_def cancel_callback_def withTransaction_def)
qed

theorem cancel_missing_or_inactive_witness:
  "cancel (ex_env ''c'' 1) ''s2'' ''admin-001'' ex_db_busy
     = (Inl SaleNotFoundOrCancelled, ex_db_busy) \<and>
   cancel (ex_env ''c'' 1) ''s9'' ''admin-001'' ex_db_busy
     = (Inl SaleNotFoundOrCancelled, ex_db_busy)"
proof -
  have h1: "\<forall>s \<in> set (sales ex_db_busy). s_id s = ''s2'' \<longrightarrow> \<not> s_is_active s"
    by (simp add: ex_db_busy_def ex_sale_def)
  have h2: "\<forall>s \<in> set (sales ex_db_busy). s_id s = ''s9'' \<longrightarrow> \<not> s_is_active s"
    by (simp add: ex_db_busy_def ex_sale_def)
  show ?thesis
    using cancel_missing_or_inactive[OF h1] cancel_missing_or_inactive[OF h2]
    by simp
qed

section \<open>The daily number of a new sale\<close>

text \<open>
  C3. A successful \<open>create\<close> returns, and stores in the new header, the greatest daily
  number among the sales created on the current date, cancelled ones included, plus
  one, or 1 when the date has no sale yet. Hence, starting from a date without sales,
  two sales made on that date get 1 and 2, and a sale made on the next date gets 1.
\<close>

theorem create_daily_number:
  "(create e data d = (Inr (sale, n), d') \<longrightarrow>
      n = (if sales_of_day d (ts_date (js_now e)) = [] then 1
           else Max (set (map s_daily_number (sales_of_day d (ts_date (js_now e))))) + 1) \<and>
      (\<exists>h. sale = Some h \<and> s_daily_number h = n \<and> sales d' = sales d @ [h])) \<and>
   (sales_of_day da day = [] \<and> sales_of_day da (day + 1) = [] \<and>
    ts_date (js_now ea) = day \<and> ts_date (db_now ea) = day \<and>
    ts_date (js_now eb) = day \<and> ts_date (db_now eb) = day \<and>
    ts_date (js_now ec) = day + 1 \<and>
    create ea ra da = (Inr (sa, na), db) \<and>
    create eb rb db = (Inr (sb, nb), dc) \<and>
    create ec rc dc = (Inr (sc, nc), dd) \<longrightarrow>
      na = 1 \<and> nb = 2 \<and> nc = 1)"
proof (intro conjI impI)
  assume c: "create e data d = (Inr (sale, n), d')"
  from create_Inr_header[OF c]
  show "n = (if sales_of_day d (ts_date (js_now e)) = [] then 1
           else Max (set (map s_daily_number (sales_of_day d (ts_date (js_now e))))) + 1)"
    by (simp add: next_daily_number_Max)
  from create_Inr_header[OF c]
  show "\<exists>h. sale = Some h \<and> s_daily_number h = n \<and> sales d' = sales d @ [h]"
    by (simp add: sale_header_def)
next
  assume a: "sales_of_day da day = [] \<and> sales_of_day da (day + 1) = [] \<and>
    ts_date (js_now ea) = day \<and> ts_date (db_now ea) = day \<and>
    ts_date (js_now eb) = day \<and> ts_date (db_now eb) = day \<and>
    ts_date (js_now ec) = day + 1 \<and>
    create ea ra da = (Inr (sa, na), db) \<and>
    create eb rb db = (Inr (sb, nb), dc) \<and>
    create ec rc dc = (Inr (sc, nc), dd)"
  then have c1: "create ea ra da = (Inr (sa, na), db)"
    and c2: "create eb rb db = (Inr (sb, nb), dc)"
    and c3: "create ec rc dc = (Inr (sc, nc), dd)"
    by simp_all
  have n1: "na = 1"
    using create_Inr_header[OF c1] a by (simp add: next_daily_number_Max)
  have day1: "sales_of_day db day = [sale_header ea ra 1]" "sales_of_day db (day + 1) = []"
    using create_Inr_sales_of_day[OF c1] a n1 by simp_all
  have n2: "nb = 2"
    using create_Inr_header[OF c2] a day1 by (simp add: next_daily_number_Max sale_header_def)
  have day2: "sales_of_day dc (day + 1) = []"
    using create_Inr_sales_of_day[OF c2, of "day + 1"] a day1 by simp
  have n3: "nc = 1"
    using create_Inr_header[OF c3] a day2 by (simp add: next_daily_number_Max)
  from n1 n2 n3 show "na = 1" "nb = 2" "nc = 1" .
qed

lemma succeeded:
  "\<not> isl (fst r) \<Longrightarrow> r = (Inr (fst (projr (fst r)), snd (projr (fst r))), snd r)"
  by (cases r; cases "fst r") auto

theorem create_daily_number_witness:
  "\<not> isl (fst (create (ex_env ''a'' 1) (ex_req [ex_item ''p1'' ''Cuaderno'' 3] 9) ex_db_busy)) \<and>
   snd (projr (fst (create (ex_env ''a'' 1) (ex_req [ex_item ''p1'' ''Cuaderno'' 3] 9) ex_db_busy))) = 3 \<and>
   \<not> isl (fst (create (ex_env ''a'' 1) (ex_req [ex_item ''p1'' ''Cuaderno'' 3] 9) ex_db)) \<and>
   snd (projr (fst (create (ex_env ''a'' 1) (ex_req [ex_item ''p1'' ''Cuaderno'' 3] 9) ex_db))) = 1 \<and>
   snd (projr (fst (create (ex_env ''b'' 1) (ex_req [ex_item ''p1'' ''Cuaderno'' 3] 9)
     (snd (create (ex_env ''a'' 1) (ex_req [ex_item ''p1'' ''Cuaderno'' 3] 9) ex_db))))) = 2 \<and>
   snd (projr (fst (create (ex_env ''c'' 2) (ex_req [ex_item ''p1'' ''Cuaderno'' 3] 9)
     (snd (create (ex_env ''b'' 1) (ex_req [ex_item ''p1'' ''Cuaderno'' 3] 9)
       (snd (create (ex_env ''a'' 1) (ex_req [ex_item ''p1'' ''Cuaderno'' 3] 9) ex_db))))))) = 1"
proof -
  let ?r = "ex_req [ex_item ''p1'' ''Cuaderno'' 3] 9"
  let ?busy = "create (ex_env ''a'' 1) ?r ex_db_busy"
  let ?A = "create (ex_env ''a'' 1) ?r ex_db"
  let ?B = "create (ex_env ''b'' 1) ?r (snd ?A)"
  let ?C = "create (ex_env ''c'' 2) ?r (snd ?B)"
  have ok: "\<not> isl (fst ?busy)" "\<not> isl (fst ?A)" "\<not> isl (fst ?B)" "\<not> isl (fst ?C)"
    by (simp_all add: statement_defs service_defs ex_defs)
  have day: "sales_of_day ex_db_busy 1 \<noteq> []"
    "Max (set (map s_daily_number (sales_of_day ex_db_busy 1))) = 2"
    "sales_of_day ex_db 1 = []" "sales_of_day ex_db (1 + 1) = []"
    by (simp_all add: sales_of_day_def ex_defs)
  have env: "ts_date (js_now (ex_env ''a'' 1)) = 1" "ts_date (db_now (ex_env ''a'' 1)) = 1"
    "ts_date (js_now (ex_env ''b'' 1)) = 1" "ts_date (db_now (ex_env ''b'' 1)) = 1"
    "ts_date (js_now (ex_env ''c'' 2)) = 1 + 1"
    by (simp_all add: ex_env_def)
  have "snd (projr (fst ?busy)) = 3"
    using create_daily_number[THEN conjunct1, rule_format, OF succeeded[OF ok(1)]] day env
    by simp
  moreover have "snd (projr (fst ?A)) = 1 \<and> snd (projr (fst ?B)) = 2 \<and> snd (projr (fst ?C)) = 1"
    by (rule create_daily_number[THEN conjunct2, rule_format,
          where da = ex_db and day = 1 and ea = "ex_env ''a'' 1" and eb = "ex_env ''b'' 1"
            and ec = "ex_env ''c'' 2" and ra = ?r and rb = ?r and rc = ?r])
      (intro conjI; (rule day env succeeded[OF ok(2)] succeeded[OF ok(3)] succeeded[OF ok(4)]))
  ultimately show ?thesis
    using ok by simp
qed

section \<open>What a sale stores\<close>

text \<open>
  C9. A successful \<open>create\<close> appends one header holding the submitted subtotal and
  total and the submitted tax and discount, 0 standing for one that is absent, and one
  item row per line item, in order, holding the line's product id, product name,
  quantity, unit price and total price as submitted, whatever the catalogue says. The
  relation between the sum of the items' total prices and the header's total, tax and
  discount is not checked: the example request, whose amounts do not add up, is stored.
\<close>

theorem create_stores_submitted_values:
  "(create e data d = (Inr (sale, n), d') \<longrightarrow>
      (\<exists>h rows. sale = Some h \<and> sales d' = sales d @ [h] \<and>
         s_total h = csi_total data \<and> s_subtotal h = csi_subtotal data \<and>
         s_tax h = (case csi_tax data of None \<Rightarrow> 0 | Some t \<Rightarrow> t) \<and>
         s_discount h = (case csi_discount data of None \<Rightarrow> 0 | Some t \<Rightarrow> t) \<and>
         sale_items d' = sale_items d @ rows \<and>
         list_all2 (\<lambda>item row.
             si_sale_id row = s_id h \<and>
             si_product_id row = in_product_id item \<and>
             si_product_name row = in_product_name item \<and>
             si_quantity row = in_quantity item \<and>
             si_unit_price row = in_unit_price item \<and>
             si_total_price row = in_total_price item) (csi_items data) rows)) \<and>
   (\<exists>h row dx.
      create (ex_env ''a'' 1) ex_req_odd ex_db = (Inr (Some h, 1), dx) \<and>
      sale_items dx = [row] \<and>
      sum_list (map si_total_price (sale_items dx)) \<noteq> s_total h - s_tax h + s_discount h \<and>
      si_product_name row = ''Libreta'' \<and>
      map_option p_name (products dx (si_product_id row)) = Some ''Cuaderno'')"
proof (intro conjI impI)
  assume c: "create e data d = (Inr (sale, n), d')"
  from create_Inr[OF c] obtain d1 where
    ins: "insert_sale (sale_header e data (next_daily_number d (ts_date (js_now e)))) d = Inr d1" and
    run: "process_items e (generateId e 0) (csi_cashier_id data) 1 (csi_items data) d1 = (Inr (), d')"
    by blast
  from insert_sale_Inr[OF ins] have d1: "sale_items d1 = sale_items d"
    by simp
  from process_items_Inr_sale_items[OF run] d1 obtain rows where
    rows: "sale_items d' = sale_items d @ rows"
      "list_all2 (\<lambda>item row. \<exists>j. row = item_row e (generateId e 0) j item) (csi_items data) rows"
    by auto
  let ?h = "sale_header e data n"
  have "list_all2 (\<lambda>item row.
             si_sale_id row = s_id ?h \<and>
             si_product_id row = in_product_id item \<and>
             si_product_name row = in_product_name item \<and>
             si_quantity row = in_quantity item \<and>
             si_unit_price row = in_unit_price item \<and>
             si_total_price row = in_total_price item) (csi_items data) rows"
    using rows(2)
    by (rule list_all2_mono) (auto simp: item_row_def sale_header_def)
  moreover have "s_total ?h = csi_total data" "s_subtotal ?h = csi_subtotal data"
    "s_tax ?h = (case csi_tax data of None \<Rightarrow> 0 | Some t \<Rightarrow> t)"
    "s_discount ?h = (case csi_discount data of None \<Rightarrow> 0 | Some t \<Rightarrow> t)"
    by (simp_all add: sale_header_def or_zero_def split: option.splits)
  ultimately show "\<exists>h rows. sale = Some h \<and> sales d' = sales d @ [h] \<and>
         s_total h = csi_total data \<and> s_subtotal h = csi_subtotal data \<and>
         s_tax h = (case csi_tax data of None \<Rightarrow> 0 | Some t \<Rightarrow> t) \<and>
         s_discount h = (case csi_discount data of None \<Rightarrow> 0 | Some t \<Rightarrow> t) \<and>
         sale_items d' = sale_items d @ rows \<and>
         list_all2 (\<lambda>item row.
             si_sale_id row = s_id h \<and>
             si_product_id row = in_product_id item \<and>
             si_product_name row = in_product_name item \<and>
             si_quantity row = in_quantity item \<and>
             si_unit_price row = in_unit_price item \<and>
             si_total_price row = in_total_price item) (csi_items data) rows"
    using create_Inr_header[OF c] rows(1) by blast
next
  show "\<exists>h row dx.
      create (ex_env ''a'' 1) ex_req_odd ex_db = (Inr (Some h, 1), dx) \<and>
      sale_items dx = [row] \<and>
      sum_list (map si_total_price (sale_items dx)) \<noteq> s_total h - s_tax h + s_discount h \<and>
      si_product_name row = ''Libreta'' \<and>
      map_option p_name (products dx (si_product_id row)) = Some ''Cuaderno''"
    by (simp add: statement_defs service_defs ex_defs)
qed

theorem create_stores_submitted_values_witness:
  "\<not> isl (fst (create (ex_env ''a'' 1) ex_req_odd ex_db)) \<and>
   (\<exists>h rows. fst (projr (fst (create (ex_env ''a'' 1) ex_req_odd ex_db))) = Some h \<and>
      sale_items (snd (create (ex_env ''a'' 1) ex_req_odd ex_db)) = sale_items ex_db @ rows \<and>
      s_total h = 100 \<and> s_tax h = 1 \<and> s_discount h = 0 \<and>
      map si_product_name rows = [''Libreta''] \<and> map si_total_price rows = [50])"
proof -
  let ?R = "create (ex_env ''a'' 1) ex_req_odd ex_db"
  have ok: "\<not> isl (fst ?R)"
    by (simp add: statement_defs service_defs ex_defs)
  from create_stores_submitted_values[THEN conjunct1, rule_format, OF succeeded[OF ok]]
  obtain h rows where
    "fst (projr (fst ?R)) = Some h" "sale_items (snd ?R) = sale_items ex_db @ rows"
    "s_total h = csi_total ex_req_odd" "s_tax h = (case csi_tax ex_req_odd of None \<Rightarrow> 0 | Some t \<Rightarrow> t)"
    "s_discount h = (case csi_discount ex_req_odd of None \<Rightarrow> 0 | Some t \<Rightarrow> t)"
    "list_all2 (\<lambda>item row. si_sale_id row = s_id h \<and>
             si_product_id row = in_product_id item \<and>
             si_product_name row = in_product_name item \<and>
             si_quantity row = in_quantity item \<and>
             si_unit_price row = in_unit_price item \<and>
             si_total_price row = in_total_price item) (csi_items ex_req_odd) rows"
    by blast
  then have main: "fst (projr (fst ?R)) = Some h \<and>
      sale_items (snd ?R) = sale_items ex_db @ rows \<and>
      s_total h = 100 \<and> s_tax h = 1 \<and> s_discount h = 0 \<and>
      map si_product_name rows = [''Libreta''] \<and> map si_total_price rows = [50]"
    by (auto simp: ex_req_odd_def list_all2_Cons1)
  show ?thesis
    by (rule conjI[OF ok]) (rule exI[of _ h], rule exI[of _ rows], rule main)
qed

section \<open>Several lines for one product\<close>

text \<open>
  C10. When \<open>create\<close> succeeds, every line item passed its stock check against the
  product's stock at the start less the quantities of the earlier lines of the same
  product; so for every product of the request the stock at the start covers the sum
  of its lines, the stock afterwards is the stock at the start less that sum, and no
  product whose stock was not negative has a negative stock afterwards.
\<close>

theorem create_duplicate_lines:
  assumes "create e data d = (Inr r, d')"
  shows "(\<forall>pre item post. csi_items data = pre @ item # post \<longrightarrow>
            (\<exists>p. products d (in_product_id item) = Some p \<and>
                 in_quantity item \<le> p_stock p - requested (in_product_id item) pre)) \<and>
         (\<forall>pid \<in> set (map in_product_id (csi_items data)).
            \<exists>p. products d pid = Some p \<and> requested pid (csi_items data) \<le> p_stock p) \<and>
         (\<forall>pid. products d' pid =
            map_option (\<lambda>p. p\<lparr>p_stock := p_stock p - requested pid (csi_items data)\<rparr>)
              (products d pid)) \<and>
         (\<forall>pid p p'. products d pid = Some p \<and> products d' pid = Some p' \<and> 0 \<le> p_stock p
            \<longrightarrow> 0 \<le> p_stock p')"
proof -
  let ?items = "csi_items data"
  from create_Inr[OF assms] obtain d1 where
    ins: "insert_sale (sale_header e data (next_daily_number d (ts_date (js_now e)))) d = Inr d1" and
    run: "process_items e (generateId e 0) (csi_cashier_id data) 1 ?items d1 = (Inr (), d')"
    by blast
  from insert_sale_Inr[OF ins] have d1: "products d1 = products d"
    by simp
  have checks: "\<forall>pre item post. ?items = pre @ item # post \<longrightarrow>
            (\<exists>p. products d (in_product_id item) = Some p \<and>
                 in_quantity item \<le> p_stock p - requested (in_product_id item) pre)"
    using process_items_Inr_checks[OF run] d1 by simp
  have covers: "\<forall>pid \<in> set (map in_product_id ?items).
            \<exists>p. products d pid = Some p \<and> requested pid ?items \<le> p_stock p"
    using process_items_Inr_covers[OF run] d1 by simp
  have after: "\<forall>pid. products d' pid =
            map_option (\<lambda>p. p\<lparr>p_stock := p_stock p - requested pid ?items\<rparr>) (products d pid)"
    using process_items_Inr_products[OF run] d1 by simp
  have "0 \<le> p_stock p'"
    if "products d pid = Some p \<and> products d' pid = Some p' \<and> 0 \<le> p_stock p" for pid p p'
  proof (cases "pid \<in> set (map in_product_id ?items)")
    case True
    with covers that have "requested pid ?items \<le> p_stock p" by auto
    moreover from after that have "p_stock p' = p_stock p - requested pid ?items" by auto
    ultimately show ?thesis by simp
  next
    case False
    then have "filter (\<lambda>item. in_product_id item = pid) ?items = []"
      by (auto simp: filter_empty_conv)
    then have "requested pid ?items = 0"
      by (simp add: requested_def)
    with after that show ?thesis by auto
  qed
  with checks covers after show ?thesis by blast
qed

theorem create_duplicate_lines_witness:
  "\<not> isl (fst (create (ex_env ''a'' 1)
       (ex_req [ex_item ''p1'' ''Cuaderno'' 3, ex_item ''p1'' ''Cuaderno'' 4] 21) ex_db)) \<and>
   map_option p_stock (products ex_db ''p1'') = Some 10 \<and>
   (4::int) \<le> 10 - requested ''p1'' [ex_item ''p1'' ''Cuaderno'' 3] \<and>
   requested ''p1'' [ex_item ''p1'' ''Cuaderno'' 3, ex_item ''p1'' ''Cuaderno'' 4] \<le> 10 \<and>
   map_option p_stock (products (snd (create (ex_env ''a'' 1)
       (ex_req [ex_item ''p1'' ''Cuaderno'' 3, ex_item ''p1'' ''Cuaderno'' 4] 21) ex_db)) ''p1'')
     = Some 3 \<and>
   fst (create (ex_env ''a'' 1)
       (ex_req [ex_item ''p1'' ''Cuaderno'' 6, ex_item ''p1'' ''Cuaderno'' 6] 36) ex_db)
     = Inl (InsufficientStock ''Cuaderno'' 4 6)"
proof -
  let ?items = "[ex_item ''p1'' ''Cuaderno'' 3, ex_item ''p1'' ''Cuaderno'' 4]"
  let ?R = "create (ex_env ''a'' 1) (ex_req ?items 21) ex_db"
  have ok: "\<not> isl (fst ?R)"
    by (simp add: statement_defs service_defs ex_defs)
  have items: "csi_items (ex_req ?items 21) = [ex_item ''p1'' ''Cuaderno'' 3] @ ex_item ''p1'' ''Cuaderno'' 4 # []"
    "''p1'' \<in> set (map in_product_id (csi_items (ex_req ?items 21)))"
    by (simp_all add: ex_req_def ex_item_def)
  have p: "map_option p_stock (products ex_db ''p1'') = Some 10"
    by (simp add: ex_defs)
  note spec = create_duplicate_lines[OF succeeded[OF ok]]
  from spec[THEN conjunct1, rule_format, OF items(1)] p
  have a: "(4::int) \<le> 10 - requested ''p1'' [ex_item ''p1'' ''Cuaderno'' 3]"
    by (auto simp: ex_item_def)
  from spec[THEN conjunct2, THEN conjunct1, rule_format, OF items(2)] p
  have b: "requested ''p1'' ?items \<le> 10"
    by (auto simp: ex_req_def)
  from spec[THEN conjunct2, THEN conjunct2, THEN conjunct1, rule_format, of "''p1''"] p
  have c: "map_option p_stock (products (snd ?R) ''p1'') = Some 3"
    by (auto simp: ex_req_def ex_item_def)
  have f: "fst (create (ex_env ''a'' 1)
       (ex_req [ex_item ''p1'' ''Cuaderno'' 6, ex_item ''p1'' ''Cuaderno'' 6] 36) ex_db)
     = Inl (InsufficientStock ''Cuaderno'' 4 6)"
    by (simp add: statement_defs service_defs ex_defs)
  from ok p a b c f show ?thesis by simp
qed

section \<open>The loop of cancel\<close>

lemma revert_items_Cons_missing:
  "products d (si_product_id item) = None \<Longrightarrow>
     revert_items e sid userId sale k (item # rest) d = revert_items e sid userId sale k rest d"
  by (simp add: getProductStock_def)

lemma revert_items_Cons_accepted:
  assumes "revert_accepted e userId k item p d"
  shows "revert_items e sid userId sale k (item # rest) d =
           revert_items e sid userId sale (k + 1) rest (after_revert e sid userId sale k item p d)"
  using assms
  by (auto simp: revert_accepted_def getProductStock_def add_stock_def
      insert_stock_movement_def after_revert_def cancel_movement_def Let_def)

lemma revert_items_Cons_Inr:
  assumes "revert_items e sid userId sale k (item # rest) d = (Inr u, d')"
    and "products d (si_product_id item) = Some p"
  shows "revert_accepted e userId k item p d \<and>
         revert_items e sid userId sale (k + 1) rest (after_revert e sid userId sale k item p d)
           = (Inr u, d')"
proof -
  from assms have acc: "revert_accepted e userId k item p d"
    by (auto simp: revert_accepted_def getProductStock_def add_stock_def
        insert_stock_movement_def Let_def split: if_splits sum.splits option.splits)
  with assms(1) revert_items_Cons_accepted[OF acc, of sid sale rest] show ?thesis by simp
qed

lemma after_revert_simps:
  "users (after_revert e sid userId sale k item p d) = users d"
  "sales (after_revert e sid userId sale k item p d) = sales d"
  "sale_items (after_revert e sid userId sale k item p d) = sale_items d"
  "products (after_revert e sid userId sale k item p d) =
     (products d)(si_product_id item \<mapsto> p\<lparr>p_stock := p_stock p + si_quantity item\<rparr>)"
  "stock_movements (after_revert e sid userId sale k item p d) =
     stock_movements d @ [cancel_movement e sid userId sale k item (p_stock p)]"
  by (simp_all add: after_revert_def)

lemma sold_Nil [simp]: "sold pid [] = 0"
  by (simp add: sold_def)

lemma sold_Cons [simp]:
  "sold pid (row # rows) = (if si_product_id row = pid then si_quantity row else 0) + sold pid rows"
  by (simp add: sold_def)

lemma present_items_after_revert:
  "products d (si_product_id item) = Some p \<Longrightarrow>
     present_items (after_revert e sid userId sale k item p d) rows = present_items d rows"
  by (auto simp: present_items_def after_revert_simps intro!: filter_cong)

lemma revert_items_Inr_tables:
  "revert_items e sid userId sale k items d = (Inr u, d') \<Longrightarrow>
     users d' = users d \<and> sales d' = sales d \<and> sale_items d' = sale_items d"
proof (induction items arbitrary: d k)
  case Nil
  then show ?case by simp
next
  case (Cons item rest)
  show ?case
  proof (cases "products d (si_product_id item)")
    case None
    from Cons.prems have "revert_items e sid userId sale k rest d = (Inr u, d')"
      unfolding revert_items_Cons_missing[OF None] .
    from Cons.IH[OF this] show ?thesis .
  next
    case (Some p)
    from revert_items_Cons_Inr[OF Cons.prems Some] Cons.IH show ?thesis
      by (fastforce simp: after_revert_simps)
  qed
qed

lemma revert_items_Inr_products:
  "revert_items e sid userId sale k items d = (Inr u, d') \<Longrightarrow>
     products d' pid =
       map_option (\<lambda>p. p\<lparr>p_stock := p_stock p + sold pid items\<rparr>) (products d pid)"
proof (induction items arbitrary: d k)
  case Nil
  then show ?case by (simp add: option.map_ident)
next
  case (Cons item rest)
  show ?case
  proof (cases "products d (si_product_id item)")
    case None
    from Cons.prems have "revert_items e sid userId sale k rest d = (Inr u, d')"
      unfolding revert_items_Cons_missing[OF None] .
    from Cons.IH[OF this] None show ?thesis by auto
  next
    case (Some p)
    from revert_items_Cons_Inr[OF Cons.prems Some] have
      rec: "revert_items e sid userId sale (k + 1) rest (after_revert e sid userId sale k item p d)
              = (Inr u, d')"
      by simp
    from Cons.IH[OF rec] Some show ?thesis
      by (auto simp: after_revert_simps add.assoc)
  qed
qed

lemma revert_items_Inr_movements:
  "revert_items e sid userId sale k items d = (Inr u, d') \<Longrightarrow>
     \<exists>ms. stock_movements d' = stock_movements d @ ms \<and>
       list_all2 (\<lambda>item m. \<exists>j stock. m = cancel_movement e sid userId sale j item stock)
         (present_items d items) ms"
proof (induction items arbitrary: d k)
  case Nil
  then show ?case by (simp add: present_items_def)
next
  case (Cons item rest)
  show ?case
  proof (cases "products d (si_product_id item)")
    case None
    from Cons.prems have "revert_items e sid userId sale k rest d = (Inr u, d')"
      unfolding revert_items_Cons_missing[OF None] .
    from Cons.IH[OF this] None show ?thesis by (simp add: present_items_def)
  next
    case (Some p)
    let ?d1 = "after_revert e sid userId sale k item p d"
    from revert_items_Cons_Inr[OF Cons.prems Some] have
      rec: "revert_items e sid userId sale (k + 1) rest ?d1 = (Inr u, d')"
      by simp
    from Cons.IH[OF rec] obtain ms where
      ms: "stock_movements d' = stock_movements ?d1 @ ms"
        "list_all2 (\<lambda>item m. \<exists>j stock. m = cancel_movement e sid userId sale j item stock)
           (present_items ?d1 rest) ms"
      by blast
    have "stock_movements d' =
            stock_movements d @ (cancel_movement e sid userId sale k item (p_stock p) # ms)"
      using ms(1) by (simp add: after_revert_simps)
    moreover have "list_all2 (\<lambda>item m. \<exists>j stock. m = cancel_movement e sid userId sale j item stock)
           (present_items d (item # rest)) (cancel_movement e sid userId sale k item (p_stock p) # ms)"
      using ms(2) Some present_items_after_revert[OF Some, of e sid userId sale k rest]
      by (auto simp: present_items_def)
    ultimately show ?thesis by blast
  qed
qed

lemma cancel_Inr:
  assumes "cancel e sid userId d = (Inr u, d')"
  shows "\<exists>sale d1. select_active_sale d sid = Some sale \<and>
           revert_items e sid userId sale 0 (select_sale_items d sid) d = (Inr (), d1) \<and>
           d' = deactivate_sale sid d1"
proof -
  from assms have "cancel_callback e sid userId d = (Inr u, d')"
    by (simp add: cancel_def withTransaction_Inr_iff)
  then show ?thesis
    by (auto simp: cancel_callback_def split: option.splits sum.splits prod.splits)
qed

lemma cancel_rollback:
  "fst (cancel e sid userId d) = Inl err \<Longrightarrow> snd (cancel e sid userId d) = d"
  by (simp add: cancel_def withTransaction_rollback)

lemma deactivate_sale_simps:
  "users (deactivate_sale sid d) = users d"
  "products (deactivate_sale sid d) = products d"
  "sale_items (deactivate_sale sid d) = sale_items d"
  "stock_movements (deactivate_sale sid d) = stock_movements d"
  "sales (deactivate_sale sid d) =
     map (\<lambda>s. if s_id s = sid then s\<lparr>s_is_active := False\<rparr> else s) (sales d)"
  by (simp_all add: deactivate_sale_def)

section \<open>A sale and its cancellation\<close>

lemma item_rows_sold:
  "list_all2 (\<lambda>item row. \<exists>j. row = item_row e sid j item) items rows \<Longrightarrow>
     sold pid rows = requested pid items"
  by (induction items rows rule: list_all2_induct) (auto simp: item_row_def)

lemma item_rows_of_sale:
  "list_all2 (\<lambda>item row. \<exists>j. row = item_row e sid j item) items rows \<Longrightarrow>
     filter (\<lambda>row. si_sale_id row = sid) rows = rows"
  by (induction items rows rule: list_all2_induct) (auto simp: item_row_def)

lemma item_rows_present:
  "list_all2 (\<lambda>item row. \<exists>j. row = item_row e sid j item) items rows \<Longrightarrow>
     \<forall>item \<in> set items. products d (in_product_id item) \<noteq> None \<Longrightarrow>
     \<forall>row \<in> set rows. products d (si_product_id row) \<noteq> None"
  by (induction items rows rule: list_all2_induct) (auto simp: item_row_def)

lemma no_items_of_new_sale:
  "items_reference_sales d \<Longrightarrow> sid \<notin> set (map s_id (sales d)) \<Longrightarrow>
     filter (\<lambda>row. si_sale_id row = sid) (sale_items d) = []"
  by (auto simp: items_reference_sales_def filter_empty_conv)

lemma sold_mset:
  assumes "mset xs = mset ys"
  shows "sold pid xs = sold pid ys"
proof -
  have "sold pid zs =
      sum_mset (image_mset si_quantity (filter_mset (\<lambda>row. si_product_id row = pid) (mset zs)))"
    for zs
    unfolding sold_def sum_mset_sum_list[symmetric] by simp
  with assms show ?thesis by simp
qed

lemma present_items_all:
  "\<forall>row \<in> set rows. products d (si_product_id row) \<noteq> None \<Longrightarrow> present_items d rows = rows"
  by (simp add: present_items_def)

text \<open>
  C4. In a store whose sale items all belong to a sale, cancelling a sale right after
  creating it gives every product back the stock it had before the sale, and appends to
  the ledger exactly one movement per line item of the sale: the new movements, read
  in their order, answer one by one to the line items of the request taken in some
  order, each of type adjustment, referring to the sale, for the line's product and
  quantity.
\<close>

theorem create_then_cancel:
  assumes "items_reference_sales d"
    and "create e data d = (Inr (Some h, n), d1)"
    and "cancel e' (s_id h) userId d1 = (Inr (), d2)"
  shows "products d2 = products d \<and>
         (\<exists>ms lines. stock_movements d2 = stock_movements d1 @ ms \<and>
            mset lines = mset (csi_items data) \<and>
            list_all2 (\<lambda>item m.
                sm_movement_type m = Adjustment \<and>
                sm_reference_id m = Some (s_id h) \<and>
                sm_product_id m = in_product_id item \<and>
                sm_quantity m = in_quantity item) lines ms)"
proof -
  let ?sid = "generateId e 0"
  let ?items = "csi_items data"
  from create_Inr_header[OF assms(2)] have
    h: "h = sale_header e data n" and new: "?sid \<notin> set (map s_id (sales d))"
    by simp_all
  then have sid: "s_id h = ?sid"
    by (simp add: sale_header_def)
  from create_Inr[OF assms(2)] obtain d0 where
    ins: "insert_sale (sale_header e data (next_daily_number d (ts_date (js_now e)))) d = Inr d0" and
    run: "process_items e ?sid (csi_cashier_id data) 1 ?items d0 = (Inr (), d1)"
    by blast
  from insert_sale_Inr[OF ins] have d0: "products d0 = products d" "sale_items d0 = sale_items d"
    by simp_all
  from process_items_Inr_sale_items[OF run] d0 obtain rows where
    rows: "sale_items d1 = sale_items d @ rows"
      "list_all2 (\<lambda>item row. \<exists>j. row = item_row e ?sid j item) ?items rows"
    by auto
  let ?found = "sort_key si_product_id rows"
  have perm: "mset ?found = mset rows"
    by simp
  have stock1: "products d1 pid =
      map_option (\<lambda>p. p\<lparr>p_stock := p_stock p - requested pid ?items\<rparr>) (products d pid)" for pid
    using process_items_Inr_products[OF run] d0 by simp
  have "products d (in_product_id item) \<noteq> None" if "item \<in> set ?items" for item
  proof -
    from that obtain pre post where "?items = pre @ item # post"
      by (auto simp: in_set_conv_decomp)
    from process_items_Inr_checks[OF run this] d0 show ?thesis by auto
  qed
  then have "\<forall>item \<in> set ?items. products d1 (in_product_id item) \<noteq> None"
    by (simp add: stock1)
  from item_rows_present[OF rows(2) this]
  have "\<forall>row \<in> set ?found. products d1 (si_product_id row) \<noteq> None"
    by simp
  then have present: "present_items d1 ?found = ?found"
    by (rule present_items_all)
  have sel: "select_sale_items d1 ?sid = ?found"
    unfolding select_sale_items_def rows(1)
    using no_items_of_new_sale[OF assms(1) new] item_rows_of_sale[OF rows(2)]
    by simp
  from cancel_Inr[OF assms(3)] sid sel obtain sale dx where
    rev: "revert_items e' ?sid userId sale 0 ?found d1 = (Inr (), dx)" and
    d2: "d2 = deactivate_sale ?sid dx"
    by auto
  have "products d2 pid = products d pid" for pid
  proof -
    have "products d2 pid =
        map_option (\<lambda>p. p\<lparr>p_stock := p_stock p + sold pid ?found\<rparr>) (products d1 pid)"
      using revert_items_Inr_products[OF rev] d2 by (simp add: deactivate_sale_simps)
    then show ?thesis
      by (cases "products d pid")
        (simp_all add: stock1 sold_mset[OF perm] item_rows_sold[OF rows(2)])
  qed
  then have stock: "products d2 = products d"
    by (rule ext)
  from revert_items_Inr_movements[OF rev] present obtain ms where
    ms: "stock_movements dx = stock_movements d1 @ ms"
      "list_all2 (\<lambda>row m. \<exists>j stock. m = cancel_movement e' ?sid userId sale j row stock)
         ?found ms"
    by auto
  from rows(2) have "list_all2 (\<lambda>row item. \<exists>j. row = item_row e ?sid j item) rows ?items"
    by (simp add: list_all2_conv_all_nth)
  from list_all2_reorder_left_invariance[OF this perm] obtain lines where
    lines: "list_all2 (\<lambda>row item. \<exists>j. row = item_row e ?sid j item) ?found lines"
      "mset lines = mset ?items"
    by blast
  from lines(1) have flipped: "list_all2 (\<lambda>item row. \<exists>j. row = item_row e ?sid j item) lines ?found"
    by (simp add: list_all2_conv_all_nth)
  have "list_all2 (\<lambda>item m.
          sm_movement_type m = Adjustment \<and> sm_reference_id m = Some (s_id h) \<and>
          sm_product_id m = in_product_id item \<and> sm_quantity m = in_quantity item) lines ms"
  proof (rule list_all2_trans[OF _ flipped ms(2)])
    fix a b c
    assume "\<exists>j. b = item_row e ?sid j a"
      and "\<exists>j stock. c = cancel_movement e' ?sid userId sale j b stock"
    then show "sm_movement_type c = Adjustment \<and> sm_reference_id c = Some (s_id h) \<and>
          sm_product_id c = in_product_id a \<and> sm_quantity c = in_quantity a"
      by (auto simp: sid item_row_def cancel_movement_def)
  qed
  with ms(1) d2 lines(2) have "\<exists>ms lines. stock_movements d2 = stock_movements d1 @ ms \<and>
            mset lines = mset (csi_items data) \<and>
            list_all2 (\<lambda>item m.
                sm_movement_type m = Adjustment \<and>
                sm_reference_id m = Some (s_id h) \<and>
                sm_product_id m = in_product_id item \<and>
                sm_quantity m = in_quantity item) lines ms"
    by (intro exI[of _ ms] exI[of _ lines]) (simp add: deactivate_sale_simps)
  with stock show ?thesis ..
qed

theorem create_then_cancel_witness:
  "items_reference_sales ex_db_two \<and>
   fst (create (ex_env ''a'' 1)
     (ex_req [ex_item ''p2'' ''Lapicero'' 2, ex_item ''p1'' ''Cuaderno'' 3,
              ex_item ''p2'' ''Lapicero'' 1] 18) ex_db_two)
     = Inr (Some (ex_sale ''a'' 3 True 1\<lparr>s_total := 18, s_subtotal := 18\<rparr>), 3) \<and>
   fst (cancel (ex_env ''c'' 1) ''a'' ''admin-001''
      (snd (create (ex_env ''a'' 1)
        (ex_req [ex_item ''p2'' ''Lapicero'' 2, ex_item ''p1'' ''Cuaderno'' 3,
                 ex_item ''p2'' ''Lapicero'' 1] 18) ex_db_two)))
     = Inr () \<and>
   products (snd (cancel (ex_env ''c'' 1) ''a'' ''admin-001''
      (snd (create (ex_env ''a'' 1)
        (ex_req [ex_item ''p2'' ''Lapicero'' 2, ex_item ''p1'' ''Cuaderno'' 3,
                 ex_item ''p2'' ''Lapicero'' 1] 18) ex_db_two))))
     = products ex_db_two \<and>
   length (stock_movements (snd (cancel (ex_env ''c'' 1) ''a'' ''admin-001''
      (snd (create (ex_env ''a'' 1)
        (ex_req [ex_item ''p2'' ''Lapicero'' 2, ex_item ''p1'' ''Cuaderno'' 3,
                 ex_item ''p2'' ''Lapicero'' 1] 18) ex_db_two)))))
     = length (stock_movements (snd (create (ex_env ''a'' 1)
        (ex_req [ex_item ''p2'' ''Lapicero'' 2, ex_item ''p1'' ''Cuaderno'' 3,
                 ex_item ''p2'' ''Lapicero'' 1] 18) ex_db_two))) + 3 \<and>
   map (\<lambda>m. (sm_product_id m, sm_quantity m, sm_previous_stock m, sm_new_stock m))
     (drop 3 (stock_movements (snd (cancel (ex_env ''c'' 1) ''a'' ''admin-001''
      (snd (create (ex_env ''a'' 1)
        (ex_req [ex_item ''p2'' ''Lapicero'' 2, ex_item ''p1'' ''Cuaderno'' 3,
                 ex_item ''p2'' ''Lapicero'' 1] 18) ex_db_two))))))
     = [(''p1'', 3, 7, 10), (''p2'', 2, 1, 3), (''p2'', 1, 3, 4)]"
proof -
  let ?req = "ex_req [ex_item ''p2'' ''Lapicero'' 2, ex_item ''p1'' ''Cuaderno'' 3,
                      ex_item ''p2'' ''Lapicero'' 1] 18"
  let ?h = "ex_sale ''a'' 3 True 1\<lparr>s_total := 18, s_subtotal := 18\<rparr>"
  let ?A = "create (ex_env ''a'' 1) ?req ex_db_two"
  let ?B = "cancel (ex_env ''c'' 1) ''a'' ''admin-001'' (snd ?A)"
  have wf: "items_reference_sales ex_db_two"
    by (simp add: items_reference_sales_def ex_defs)
  have a: "fst ?A = Inr (Some ?h, 3)"
    by (simp add: statement_defs service_defs ex_defs)
  have b: "fst ?B = Inr ()"
    by (simp add: statement_defs service_defs ex_defs)
  have c: "map (\<lambda>m. (sm_product_id m, sm_quantity m, sm_previous_stock m, sm_new_stock m))
     (drop 3 (stock_movements (snd ?B)))
     = [(''p1'', 3, 7, 10), (''p2'', 2, 1, 3), (''p2'', 1, 3, 4)]"
    by (simp add: statement_defs service_defs ex_defs)
  have sid: "s_id ?h = ''a''"
    by (simp add: ex_sale_def)
  from create_then_cancel[OF wf outcomeI[OF a], of "ex_env ''c'' 1" "''admin-001''" "snd ?B"]
    outcomeI[OF b] sid
  obtain ms lines where r: "products (snd ?B) = products ex_db_two"
    "stock_movements (snd ?B) = stock_movements (snd ?A) @ ms"
    "mset lines = mset (csi_items ?req)"
    "list_all2 (\<lambda>item m.
                sm_movement_type m = Adjustment \<and>
                sm_reference_id m = Some (s_id ?h) \<and>
                sm_product_id m = in_product_id item \<and>
                sm_quantity m = in_quantity item) lines ms"
    by auto
  from r(3) have "length lines = length (csi_items ?req)"
    by (rule mset_eq_length)
  with r(4) have "length ms = 3"
    by (auto simp: ex_req_def dest: list_all2_lengthD)
  with r(1,2) show ?thesis
    using wf a b c by simp
qed

section \<open>Fresh identifiers\<close>

lemma fresh_ids_advance:
  assumes "fresh_ids e d k (j + m)"
    and "used_ids d' \<subseteq> used_ids d \<union> generateId e ` {k ..< k + j}"
  shows "fresh_ids e d' (k + j) m"
proof -
  from assms(1) have inj: "inj_on (generateId e) {k ..< k + (j + m)}"
    and new: "\<forall>i \<in> {k ..< k + (j + m)}. generateId e i \<notin> used_ids d"
    by (simp_all add: fresh_ids_def)
  have sub: "{k + j ..< k + j + m} \<subseteq> {k ..< k + (j + m)}"
    by auto
  have inj': "inj_on (generateId e) {k + j ..< k + j + m}"
    using inj sub by (rule inj_on_subset)
  have "generateId e i \<notin> used_ids d'" if i: "i \<in> {k + j ..< k + j + m}" for i
  proof
    assume "generateId e i \<in> used_ids d'"
    with assms(2) have "generateId e i \<in> used_ids d \<or> generateId e i \<in> generateId e ` {k ..< k + j}"
      by blast
    then show False
    proof
      assume "generateId e i \<in> used_ids d"
      moreover from i sub have "i \<in> {k ..< k + (j + m)}" by blast
      ultimately show False using new by blast
    next
      assume "generateId e i \<in> generateId e ` {k ..< k + j}"
      then obtain i' where i': "i' \<in> {k ..< k + j}" "generateId e i = generateId e i'"
        by blast
      from i' have a: "i' \<in> {k ..< k + (j + m)}" by simp
      from i sub have b: "i \<in> {k ..< k + (j + m)}" by blast
      from inj_onD[OF inj i'(2) b a] have "i = i'" .
      with i'(1) i show False by simp
    qed
  qed
  with inj' show ?thesis
    by (simp add: fresh_ids_def)
qed


lemma fresh_ids_first:
  "fresh_ids e d k (Suc m) \<Longrightarrow> generateId e k \<notin> used_ids d"
  by (simp add: fresh_ids_def)


lemma fresh_ids_second:
  "fresh_ids e d k (Suc (Suc m)) \<Longrightarrow> generateId e (Suc k) \<notin> used_ids d"
  by (simp add: fresh_ids_def)



section \<open>Manual stock adjustment\<close>

text \<open>
  C7, as the code has it. \<open>adjustStock\<close> fails with its not-found error when the
  product row is missing, and with its negative-stock error when the current stock plus
  the delta is negative; in both cases the store is unchanged. When the sum is not
  negative, the user id is that of a user and the generated id is not yet in the ledger,
  it sets the product's stock to the sum and appends one movement of type adjustment
  recording the delta, the previous stock, the new stock, the reason and the user, and
  changes nothing else. When the sum is not negative but the user is unknown or the id
  is taken, the store refuses the ledger row, the call fails and the store is unchanged.
\<close>

theorem adjustStock_outcomes:
  "(products d pid = None \<longrightarrow>
      adjustStock e pid q reason userId d = (Inl ProductMissing, d)) \<and>
   (products d pid = Some p \<and> p_stock p + q < 0 \<longrightarrow>
      adjustStock e pid q reason userId d = (Inl StockNegative, d)) \<and>
   (products d pid = Some p \<and> 0 \<le> p_stock p + q \<and> users d userId \<noteq> None \<and>
    generateId e 0 \<notin> set (map sm_id (stock_movements d)) \<longrightarrow>
      (\<exists>d' m. adjustStock e pid q reason userId d = (Inr (), d') \<and>
         products d' = (products d)(pid \<mapsto> p\<lparr>p_stock := p_stock p + q\<rparr>) \<and>
         stock_movements d' = stock_movements d @ [m] \<and>
         sm_product_id m = pid \<and> sm_movement_type m = Adjustment \<and> sm_quantity m = q \<and>
         sm_previous_stock m = p_stock p \<and> sm_new_stock m = p_stock p + q \<and>
         sm_notes m = Some (NoteText reason) \<and> sm_created_by m = Some userId \<and>
         users d' = users d \<and> sales d' = sales d \<and> sale_items d' = sale_items d)) \<and>
   (products d pid = Some p \<and> 0 \<le> p_stock p + q \<and>
    (users d userId = None \<or> generateId e 0 \<in> set (map sm_id (stock_movements d))) \<longrightarrow>
      (\<exists>c. adjustStock e pid q reason userId d = (Inl (ConstraintFailed c), d)))"
proof (intro conjI impI)
  assume "products d pid = None"
  then show "adjustStock e pid q reason userId d = (Inl ProductMissing, d)"
    by (simp add: adjustStock_def adjustStock_callback_def withTransaction_def)
next
  assume "products d pid = Some p \<and> p_stock p + q < 0"
  then show "adjustStock e pid q reason userId d = (Inl StockNegative, d)"
    by (simp add: adjustStock_def adjustStock_callback_def withTransaction_def Let_def)
next
  assume a: "products d pid = Some p \<and> 0 \<le> p_stock p + q \<and> users d userId \<noteq> None \<and>
    generateId e 0 \<notin> set (map sm_id (stock_movements d))"
  let ?m = "\<lparr>sm_id = generateId e 0, sm_product_id = pid, sm_movement_type = Adjustment,
      sm_quantity = q, sm_previous_stock = p_stock p, sm_new_stock = p_stock p + q,
      sm_reference_id = None, sm_notes = Some (NoteText reason),
      sm_created_by = Some userId, sm_created_at = db_now e\<rparr>"
  let ?d' = "d\<lparr>products := (products d)(pid \<mapsto> p\<lparr>p_stock := p_stock p + q\<rparr>),
      stock_movements := stock_movements d @ [?m]\<rparr>"
  from a have "adjustStock e pid q reason userId d = (Inr (), ?d')"
    by (auto simp: adjustStock_def adjustStock_callback_def withTransaction_def Let_def
        set_stock_def insert_stock_movement_def)
  then show "\<exists>d' m. adjustStock e pid q reason userId d = (Inr (), d') \<and>
         products d' = (products d)(pid \<mapsto> p\<lparr>p_stock := p_stock p + q\<rparr>) \<and>
         stock_movements d' = stock_movements d @ [m] \<and>
         sm_product_id m = pid \<and> sm_movement_type m = Adjustment \<and> sm_quantity m = q \<and>
         sm_previous_stock m = p_stock p \<and> sm_new_stock m = p_stock p + q \<and>
         sm_notes m = Some (NoteText reason) \<and> sm_created_by m = Some userId \<and>
         users d' = users d \<and> sales d' = sales d \<and> sale_items d' = sale_items d"
    by (intro exI[of _ ?d'] exI[of _ ?m]) simp
next
  assume a: "products d pid = Some p \<and> 0 \<le> p_stock p + q \<and>
    (users d userId = None \<or> generateId e 0 \<in> set (map sm_id (stock_movements d)))"
  then show "\<exists>c. adjustStock e pid q reason userId d = (Inl (ConstraintFailed c), d)"
    by (auto simp: adjustStock_def adjustStock_callback_def withTransaction_def Let_def
        set_stock_def insert_stock_movement_def)
qed

theorem adjustStock_outcomes_witness:
  "adjustStock (ex_env ''m'' 1) ''p9'' 5 ''recuento'' ''admin-001'' ex_db
     = (Inl ProductMissing, ex_db) \<and>
   adjustStock (ex_env ''m'' 1) ''p1'' (- 11) ''recuento'' ''admin-001'' ex_db
     = (Inl StockNegative, ex_db) \<and>
   fst (adjustStock (ex_env ''m'' 1) ''p1'' (- 10) ''recuento'' ''admin-001'' ex_db) = Inr () \<and>
   map_option p_stock
     (products (snd (adjustStock (ex_env ''m'' 1) ''p1'' (- 10) ''recuento'' ''admin-001'' ex_db))
        ''p1'') = Some 0 \<and>
   map sm_new_stock
     (stock_movements
        (snd (adjustStock (ex_env ''m'' 1) ''p1'' (- 10) ''recuento'' ''admin-001'' ex_db))) = [0] \<and>
   isl (fst (adjustStock (ex_env ''m'' 1) ''p1'' 5 ''recuento'' ''ghost'' ex_db)) \<and>
   snd (adjustStock (ex_env ''m'' 1) ''p1'' 5 ''recuento'' ''ghost'' ex_db) = ex_db"
proof -
  let ?e = "ex_env ''m'' 1"
  let ?p = "ex_product ''Cuaderno'' 10 True"
  have p9: "products ex_db ''p9'' = None"
    by (simp add: ex_db_def)
  have p1: "products ex_db ''p1'' = Some ?p" "p_stock ?p = 10"
    by (simp_all add: ex_db_def ex_product_def)
  have u: "users ex_db ''admin-001'' \<noteq> None" "users ex_db ''ghost'' = None"
    "generateId ?e 0 \<notin> set (map sm_id (stock_movements ex_db))"
    by (simp_all add: ex_defs)
  note spec = adjustStock_outcomes[where d = ex_db and e = ?e and reason = "''recuento''"]
  have a: "adjustStock ?e ''p9'' 5 ''recuento'' ''admin-001'' ex_db = (Inl ProductMissing, ex_db)"
    using spec[THEN conjunct1, rule_format, OF p9] .
  have b: "adjustStock ?e ''p1'' (- 11) ''recuento'' ''admin-001'' ex_db = (Inl StockNegative, ex_db)"
    by (rule spec[THEN conjunct2, THEN conjunct1, rule_format, where p = ?p])
      (simp add: p1)
  have "\<exists>d' m. adjustStock ?e ''p1'' (- 10) ''recuento'' ''admin-001'' ex_db = (Inr (), d') \<and>
         products d' = (products ex_db)(''p1'' \<mapsto> ?p\<lparr>p_stock := p_stock ?p + (- 10)\<rparr>) \<and>
         stock_movements d' = stock_movements ex_db @ [m] \<and>
         sm_product_id m = ''p1'' \<and> sm_movement_type m = Adjustment \<and> sm_quantity m = - 10 \<and>
         sm_previous_stock m = p_stock ?p \<and> sm_new_stock m = p_stock ?p + (- 10) \<and>
         sm_notes m = Some (NoteText ''recuento'') \<and> sm_created_by m = Some ''admin-001'' \<and>
         users d' = users ex_db \<and> sales d' = sales ex_db \<and> sale_items d' = sale_items ex_db"
    by (rule spec[THEN conjunct2, THEN conjunct2, THEN conjunct1, rule_format])
      (simp add: p1 u ex_defs)
  then have c: "fst (adjustStock ?e ''p1'' (- 10) ''recuento'' ''admin-001'' ex_db) = Inr ()"
    "map_option p_stock
       (products (snd (adjustStock ?e ''p1'' (- 10) ''recuento'' ''admin-001'' ex_db)) ''p1'') = Some 0"
    "map sm_new_stock
       (stock_movements (snd (adjustStock ?e ''p1'' (- 10) ''recuento'' ''admin-001'' ex_db))) = [0]"
    by (auto simp: p1 ex_db_def)
  have "\<exists>c. adjustStock ?e ''p1'' 5 ''recuento'' ''ghost'' ex_db = (Inl (ConstraintFailed c), ex_db)"
    by (rule spec[THEN conjunct2, THEN conjunct2, THEN conjunct2, rule_format, where p = ?p])
      (simp add: p1 u)
  then have f: "isl (fst (adjustStock ?e ''p1'' 5 ''recuento'' ''ghost'' ex_db))"
    "snd (adjustStock ?e ''p1'' 5 ''recuento'' ''ghost'' ex_db) = ex_db"
    by auto
  from a b c f show ?thesis by simp
qed

text \<open>
  The claim as the specification words it promises the update and the ledger row
  whenever the sum is not negative. With a user id that is not in \<open>users\<close> the product
  exists, the sum is 15, and the call fails on the foreign key of \<open>created_by\<close>, leaving
  the stock at 10 and the ledger empty.
\<close>

theorem adjustStock_unknown_user:
  "map_option p_stock (products ex_db ''p1'') = Some 10 \<and>
   adjustStock (ex_env ''m'' 1) ''p1'' 5 ''recuento'' ''ghost'' ex_db
     = (Inl (ConstraintFailed ForeignKey), ex_db)"
  by (simp add: statement_defs service_defs ex_defs)

section \<open>Cancelling when a product row is gone\<close>

lemma used_ids_after_revert:
  "used_ids (after_revert e sid userId sale k item p d) \<subseteq>
     used_ids d \<union> generateId e ` {k ..< k + 1}"
  by (auto simp: used_ids_def after_revert_simps cancel_movement_def)

lemma revert_items_succeeds:
  assumes "fresh_ids e d k (length (present_items d items))"
    and "present_items d items = [] \<or> users d userId \<noteq> None"
  shows "\<exists>d'. revert_items e sid userId sale k items d = (Inr (), d')"
  using assms
proof (induction items arbitrary: d k)
  case Nil
  then show ?case by simp
next
  case (Cons item rest)
  show ?case
  proof (cases "products d (si_product_id item)")
    case None
    then have "present_items d (item # rest) = present_items d rest"
      by (simp add: present_items_def)
    with Cons.prems Cons.IH[of d k] show ?thesis
      unfolding revert_items_Cons_missing[OF None] by simp
  next
    case (Some p)
    let ?d1 = "after_revert e sid userId sale k item p d"
    from Some have pres: "present_items d (item # rest) = item # present_items d rest"
      by (simp add: present_items_def)
    with Cons.prems have fresh: "fresh_ids e d k (1 + length (present_items d rest))"
      and user: "users d userId \<noteq> None"
      by simp_all
    from fresh have "generateId e k \<notin> used_ids d"
      by (simp add: fresh_ids_first)
    with Some user have acc: "revert_accepted e userId k item p d"
      by (simp add: revert_accepted_def used_ids_def)
    have same: "present_items ?d1 rest = present_items d rest"
      by (rule present_items_after_revert[OF Some])
    from fresh_ids_advance[OF fresh used_ids_after_revert]
    have "fresh_ids e ?d1 (k + 1) (length (present_items ?d1 rest))"
      by (simp add: same)
    moreover from user have "present_items ?d1 rest = [] \<or> users ?d1 userId \<noteq> None"
      by (simp add: after_revert_simps)
    ultimately obtain d' where "revert_items e sid userId sale (k + 1) rest ?d1 = (Inr (), d')"
      using Cons.IH[of ?d1 "k + 1"] by blast
    then show ?thesis
      unfolding revert_items_Cons_accepted[OF acc] by blast
  qed
qed

lemma deactivate_sale_inactive:
  "\<forall>x \<in> set (sales (deactivate_sale sid d)). s_id x = sid \<longrightarrow> \<not> s_is_active x"
proof (intro ballI impI)
  fix x
  assume "x \<in> set (sales (deactivate_sale sid d))" and id: "s_id x = sid"
  then obtain y where y: "y \<in> set (sales d)"
    "x = (if s_id y = sid then y\<lparr>s_is_active := False\<rparr> else y)"
    unfolding deactivate_sale_simps set_map by blast
  show "\<not> s_is_active x"
  proof (cases "s_id y = sid")
    case True
    with y(2) show ?thesis by simp
  next
    case False
    with y(2) id show ?thesis by simp
  qed
qed

text \<open>
  C5, as the code has it. Let a sale be active, the user id be known (or no item of the
  sale have a product row left) and the generated ids be fresh. Then \<open>cancel\<close>
  succeeds; the ledger gains one adjustment movement for each item whose product row
  is still in the table, soft-deleted or not, in the order in which the query returns
  the items, and none for an item whose row is gone;
  each remaining product gets back the quantities of its items; a product whose row
  is gone stays gone; and every sale with that id is inactive afterwards.
\<close>

theorem cancel_skips_missing_products:
  assumes "s \<in> set (sales d) \<and> s_id s = sid \<and> s_is_active s"
    and "present_items d (select_sale_items d sid) = [] \<or> users d userId \<noteq> None"
    and "fresh_ids e d 0 (length (present_items d (select_sale_items d sid)))"
  shows "\<exists>d' ms. cancel e sid userId d = (Inr (), d') \<and>
           stock_movements d' = stock_movements d @ ms \<and>
           list_all2 (\<lambda>row m.
               sm_movement_type m = Adjustment \<and> sm_reference_id m = Some sid \<and>
               sm_product_id m = si_product_id row \<and> sm_quantity m = si_quantity row)
             (present_items d (select_sale_items d sid)) ms \<and>
           (\<forall>pid. products d' pid =
              map_option (\<lambda>p. p\<lparr>p_stock := p_stock p + sold pid (select_sale_items d sid)\<rparr>)
                (products d pid)) \<and>
           (\<forall>x \<in> set (sales d'). s_id x = sid \<longrightarrow> \<not> s_is_active x)"
proof -
  let ?items = "select_sale_items d sid"
  from assms(1) obtain sale where sale: "select_active_sale d sid = Some sale"
    by (cases "select_active_sale d sid") (auto simp: select_active_sale_def find_None_iff)
  from revert_items_succeeds[OF assms(3) assms(2)] obtain d1 where
    rev: "revert_items e sid userId sale 0 ?items d = (Inr (), d1)"
    by blast
  let ?d' = "deactivate_sale sid d1"
  from sale rev have run: "cancel e sid userId d = (Inr (), ?d')"
    by (simp add: cancel_def cancel_callback_def withTransaction_def)
  from revert_items_Inr_movements[OF rev] obtain ms where
    ms: "stock_movements d1 = stock_movements d @ ms"
      "list_all2 (\<lambda>row m. \<exists>j stock. m = cancel_movement e sid userId sale j row stock)
         (present_items d ?items) ms"
    by blast
  have rows: "list_all2 (\<lambda>row m.
               sm_movement_type m = Adjustment \<and> sm_reference_id m = Some sid \<and>
               sm_product_id m = si_product_id row \<and> sm_quantity m = si_quantity row)
             (present_items d ?items) ms"
    using ms(2) by (rule list_all2_mono) (auto simp: cancel_movement_def)
  have stock: "\<forall>pid. products ?d' pid =
      map_option (\<lambda>p. p\<lparr>p_stock := p_stock p + sold pid ?items\<rparr>) (products d pid)"
    using revert_items_Inr_products[OF rev] by (simp add: deactivate_sale_simps)
  have off: "\<forall>x \<in> set (sales ?d'). s_id x = sid \<longrightarrow> \<not> s_is_active x"
    by (rule deactivate_sale_inactive)
  have led: "stock_movements ?d' = stock_movements d @ ms"
    using ms(1) by (simp add: deactivate_sale_simps)
  show ?thesis
    apply (rule exI[of _ ?d'], rule exI[of _ ms])
    apply (intro conjI)
        apply (rule run)
       apply (rule led)
      apply (rule rows)
     apply (rule stock)
    apply (rule off)
    done
qed

theorem cancel_skips_missing_products_witness:
  "products ex_db_hard_deleted ''p1'' = None \<and>
   select_sale_items ex_db_hard_deleted ''s1''
     = [ex_row ''i2'' ''s1'' ''p1'' 3, ex_row ''i3'' ''s1'' ''p2'' 2, ex_row ''i1'' ''s1'' ''p3'' 1] \<and>
   present_items ex_db_hard_deleted (select_sale_items ex_db_hard_deleted ''s1'')
     = [ex_row ''i3'' ''s1'' ''p2'' 2, ex_row ''i1'' ''s1'' ''p3'' 1] \<and>
   fst (cancel (ex_env ''c'' 2) ''s1'' ''admin-001'' ex_db_hard_deleted) = Inr () \<and>
   map sm_product_id
     (stock_movements (snd (cancel (ex_env ''c'' 2) ''s1'' ''admin-001'' ex_db_hard_deleted)))
     = [''p2'', ''p3''] \<and>
   products (snd (cancel (ex_env ''c'' 2) ''s1'' ''admin-001'' ex_db_hard_deleted)) ''p1'' = None \<and>
   map_option p_stock
     (products (snd (cancel (ex_env ''c'' 2) ''s1'' ''admin-001'' ex_db_hard_deleted)) ''p2'')
     = Some 6 \<and>
   map_option p_stock
     (products (snd (cancel (ex_env ''c'' 2) ''s1'' ''admin-001'' ex_db_hard_deleted)) ''p3'')
     = Some 2 \<and>
   map s_is_active (sales (snd (cancel (ex_env ''c'' 2) ''s1'' ''admin-001'' ex_db_hard_deleted)))
     = [False]"
proof -
  let ?d = ex_db_hard_deleted
  let ?R = "cancel (ex_env ''c'' 2) ''s1'' ''admin-001'' ?d"
  have items: "select_sale_items ?d ''s1'' =
      [ex_row ''i2'' ''s1'' ''p1'' 3, ex_row ''i3'' ''s1'' ''p2'' 2, ex_row ''i1'' ''s1'' ''p3'' 1]"
    by (simp add: select_sale_items_def ex_defs)
  have pres: "present_items ?d (select_sale_items ?d ''s1'') =
      [ex_row ''i3'' ''s1'' ''p2'' 2, ex_row ''i1'' ''s1'' ''p3'' 1]"
    unfolding items by (simp add: present_items_def ex_defs)
  have gone: "products ?d ''p1'' = None"
    and p2: "map_option p_stock (products ?d ''p2'') = Some 4"
    and p3: "map_option p_stock (products ?d ''p3'') = Some 1"
    by (simp_all add: ex_defs)
  have h1: "ex_sale ''s1'' 1 True 1 \<in> set (sales ?d) \<and> s_id (ex_sale ''s1'' 1 True 1) = ''s1'' \<and>
      s_is_active (ex_sale ''s1'' 1 True 1)"
    by (simp add: ex_defs)
  have h2: "present_items ?d (select_sale_items ?d ''s1'') = [] \<or> users ?d ''admin-001'' \<noteq> None"
    by (simp add: ex_defs)
  have h3: "fresh_ids (ex_env ''c'' 2) ?d 0 (length (present_items ?d (select_sale_items ?d ''s1'')))"
    unfolding pres by (simp add: fresh_ids_def used_ids_def ex_env_def ex_gen_inj ex_defs)
  from cancel_skips_missing_products[OF h1 h2 h3] obtain d' ms where
    r: "?R = (Inr (), d')" "stock_movements d' = stock_movements ?d @ ms"
      "list_all2 (\<lambda>row m.
               sm_movement_type m = Adjustment \<and> sm_reference_id m = Some ''s1'' \<and>
               sm_product_id m = si_product_id row \<and> sm_quantity m = si_quantity row)
             (present_items ?d (select_sale_items ?d ''s1'')) ms"
      "\<forall>pid. products d' pid =
              map_option (\<lambda>p. p\<lparr>p_stock := p_stock p + sold pid (select_sale_items ?d ''s1'')\<rparr>)
                (products ?d pid)"
      "\<forall>x \<in> set (sales d'). s_id x = ''s1'' \<longrightarrow> \<not> s_is_active x"
    by blast
  from r(3) have "map sm_product_id ms = [''p2'', ''p3'']"
    unfolding pres by (auto simp: list_all2_Cons1 ex_row_def)
  with r(1,2) have a: "fst ?R = Inr ()" "map sm_product_id (stock_movements (snd ?R)) = [''p2'', ''p3'']"
    by (simp_all add: ex_defs)
  from r(1) r(4)[rule_format, of "''p1''"] gone have b: "products (snd ?R) ''p1'' = None"
    by simp
  from r(1) r(4)[rule_format, of "''p2''"] p2 have c: "map_option p_stock (products (snd ?R) ''p2'') = Some 6"
    unfolding items by (auto simp: ex_row_def)
  from r(1) r(4)[rule_format, of "''p3''"] p3 have c3: "map_option p_stock (products (snd ?R) ''p3'') = Some 2"
    unfolding items by (auto simp: ex_row_def)
  have "sales d' = [x] \<Longrightarrow> s_id x = ''s1'' \<Longrightarrow> map s_is_active (sales d') = [False]" for x
    using r(5) by simp
  moreover have "\<exists>x. sales (snd ?R) = [x] \<and> s_id x = ''s1''"
    by (simp add: statement_defs service_defs ex_defs present_items_def)
  ultimately have e: "map s_is_active (sales (snd ?R)) = [False]"
    using r(1) by auto
  from gone items pres a b c c3 e show ?thesis by simp
qed

text \<open>
  The claim as the specification words it lets a soft-deleted product be skipped too.
  The stock query of \<open>cancel\<close> does not look at \<open>is_active\<close>: the soft-deleted product
  of the example gets its three units back and a movement is recorded for it.
\<close>

theorem cancel_restores_soft_deleted_product:
  "map_option p_is_active (products ex_db_soft_deleted ''p1'') = Some False \<and>
   map_option p_stock (products ex_db_soft_deleted ''p1'') = Some 7 \<and>
   fst (cancel (ex_env ''c'' 2) ''s1'' ''admin-001'' ex_db_soft_deleted) = Inr () \<and>
   map_option p_stock
     (products (snd (cancel (ex_env ''c'' 2) ''s1'' ''admin-001'' ex_db_soft_deleted)) ''p1'')
     = Some 10 \<and>
   map (\<lambda>m. (sm_product_id m, sm_movement_type m, sm_quantity m, sm_previous_stock m, sm_new_stock m))
     (stock_movements (snd (cancel (ex_env ''c'' 2) ''s1'' ''admin-001'' ex_db_soft_deleted)))
     = [(''p1'', Adjustment, 3, 7, 10)]"
  by (simp add: statement_defs service_defs ex_defs)

section \<open>A line item that the stock does not cover\<close>

lemma process_items_append:
  "process_items e sid cashier k (xs @ ys) d =
     (case process_items e sid cashier k xs d of
        (Inl err, dx) \<Rightarrow> (Inl err, dx)
      | (Inr u, dx) \<Rightarrow> process_items e sid cashier (k + 2 * length xs) ys dx)"
proof (induction xs arbitrary: d k)
  case Nil
  then show ?case by simp
next
  case (Cons x xs)
  show ?case
  proof (cases "process_items e sid cashier k [x] d")
    case (Pair res dx)
    show ?thesis
    proof (cases res)
      case (Inl err)
      with Pair show ?thesis
        by (auto simp: Let_def split: option.splits if_splits sum.splits)
    next
      case (Inr u)
      with Pair process_items_Cons_Inr[of e sid cashier k x "[]" d u dx] obtain p where
        acc: "item_accepted e sid cashier k x p d" and dx: "dx = after_item e sid cashier k x p d"
        by auto
      show ?thesis
        unfolding append_Cons process_items_Cons_accepted[OF acc] Cons.IH
        by (simp split: prod.splits sum.splits)
    qed
  qed
qed

lemma used_ids_after_item:
  "used_ids (after_item e sid cashier k item p d) \<subseteq>
     used_ids d \<union> generateId e ` {k ..< k + 2}"
proof -
  have "generateId e k \<in> generateId e ` {k ..< k + 2}"
    "generateId e (k + 1) \<in> generateId e ` {k ..< k + 2}"
    by (rule imageI, simp)+
  then show ?thesis
    by (auto simp: used_ids_def after_item_simps item_row_def sale_movement_def)
qed

lemma process_items_succeeds:
  assumes "fresh_ids e d k (2 * length items)"
    and "sid \<in> set (map s_id (sales d))"
    and "users d cashier \<noteq> None"
    and "\<forall>pre x post. items = pre @ x # post \<longrightarrow>
           (\<exists>p. products d (in_product_id x) = Some p \<and>
                in_quantity x \<le> p_stock p - requested (in_product_id x) pre)"
  shows "\<exists>d'. process_items e sid cashier k items d = (Inr (), d')"
  using assms
proof (induction items arbitrary: d k)
  case Nil
  then show ?case by simp
next
  case (Cons item rest)
  let ?pid = "in_product_id item"
  from Cons.prems(4)[rule_format, of "[]" item rest] obtain p where
    p: "products d ?pid = Some p" "in_quantity item \<le> p_stock p"
    by auto
  from Cons.prems(1) have fresh: "fresh_ids e d k (2 + 2 * length rest)"
    by simp
  then have "fresh_ids e d k (Suc (Suc (2 * length rest)))"
    by simp
  then have "generateId e k \<notin> used_ids d" "generateId e (Suc k) \<notin> used_ids d"
    by (simp_all add: fresh_ids_def)
  with p Cons.prems(2,3) have acc: "item_accepted e sid cashier k item p d"
    by (simp add: item_accepted_def used_ids_def)
  let ?d1 = "after_item e sid cashier k item p d"
  have f1: "fresh_ids e ?d1 (k + 2) (2 * length rest)"
    using fresh_ids_advance[OF fresh used_ids_after_item] .
  have s1: "sid \<in> set (map s_id (sales ?d1))" and u1: "users ?d1 cashier \<noteq> None"
    using Cons.prems(2,3) by (simp_all add: after_item_simps)
  have l1: "\<forall>pre x post. rest = pre @ x # post \<longrightarrow>
           (\<exists>p'. products ?d1 (in_product_id x) = Some p' \<and>
                in_quantity x \<le> p_stock p' - requested (in_product_id x) pre)"
  proof (intro allI impI)
    fix pre x post
    assume "rest = pre @ x # post"
    then have "item # rest = (item # pre) @ x # post" by simp
    from Cons.prems(4)[rule_format, OF this] obtain px where
      px: "products d (in_product_id x) = Some px"
        "in_quantity x \<le> p_stock px - requested (in_product_id x) (item # pre)"
      by blast
    show "\<exists>p'. products ?d1 (in_product_id x) = Some p' \<and>
                in_quantity x \<le> p_stock p' - requested (in_product_id x) pre"
    proof (cases "in_product_id x = ?pid")
      case True
      with p px show ?thesis by (simp add: after_item_simps)
    next
      case False
      with px show ?thesis by (simp add: after_item_simps)
    qed
  qed
  from Cons.IH[OF f1 s1 u1 l1] show ?case
    unfolding process_items_Cons_accepted[OF acc] .
qed

lemma requested_nonneg:
  "\<forall>x \<in> set items. 0 \<le> in_quantity x \<Longrightarrow> 0 \<le> requested pid items"
  by (induction items) auto

lemma process_items_short:
  assumes "process_items e sid cashier k pre d = (Inr (), dx)"
    and "products d (in_product_id item) = Some p"
    and "p_stock p - requested (in_product_id item) pre < in_quantity item"
  shows "fst (process_items e sid cashier k (pre @ item # post) d) =
           Inl (InsufficientStock (in_product_name item)
                  (p_stock p - requested (in_product_id item) pre) (in_quantity item))"
proof -
  from process_items_Inr_products[OF assms(1), of "in_product_id item"] assms(2)
  have "getProductStock dx (in_product_id item) =
          Some (p_stock p - requested (in_product_id item) pre)"
    by (simp add: getProductStock_def)
  with assms(1,3) show ?thesis
    by (simp add: process_items_append)
qed

lemma used_ids_insert_sale:
  "used_ids (d\<lparr>sales := sales d @ [r]\<rparr>) \<subseteq> used_ids d \<union> {s_id r}"
  by (auto simp: used_ids_def)

lemma create_short_line:
  assumes items: "csi_items data = pre @ item # post"
    and valid: "0 < csi_total data"
    and user: "users d (csi_cashier_id data) \<noteq> None"
    and fresh: "fresh_ids e d 0 (1 + 2 * length pre)"
    and lines: "\<forall>pre' x post'. pre = pre' @ x # post' \<longrightarrow>
           (\<exists>px. products d (in_product_id x) = Some px \<and>
                 in_quantity x \<le> p_stock px - requested (in_product_id x) pre')"
    and p: "products d (in_product_id item) = Some p"
    and short: "p_stock p - requested (in_product_id item) pre < in_quantity item"
  shows "create e data d =
           (Inl (InsufficientStock (in_product_name item)
                   (p_stock p - requested (in_product_id item) pre) (in_quantity item)), d)"
proof -
  let ?sid = "generateId e 0"
  let ?hdr = "sale_header e data (next_daily_number d (ts_date (js_now e)))"
  let ?d1 = "d\<lparr>sales := sales d @ [?hdr]\<rparr>"
  have id: "s_id ?hdr = ?sid" "s_cashier_id ?hdr = csi_cashier_id data"
    by (simp_all add: sale_header_def)
  from fresh have "fresh_ids e d 0 (Suc (2 * length pre))"
    by simp
  then have "?sid \<notin> used_ids d"
    by (rule fresh_ids_first)
  then have "?sid \<notin> set (map s_id (sales d))"
    by (simp add: used_ids_def)
  with user have ins: "insert_sale ?hdr d = Inr ?d1"
    by (simp add: insert_sale_def id)
  have "used_ids ?d1 \<subseteq> used_ids d \<union> generateId e ` {0 ..< 0 + 1}"
    using used_ids_insert_sale[of d ?hdr] by (simp add: id)
  from fresh_ids_advance[OF fresh this] have f1: "fresh_ids e ?d1 1 (2 * length pre)"
    by simp
  have s1: "?sid \<in> set (map s_id (sales ?d1))"
    by (simp add: id)
  have u1: "users ?d1 (csi_cashier_id data) \<noteq> None"
    using user by simp
  have l1: "\<forall>pre' x post'. pre = pre' @ x # post' \<longrightarrow>
           (\<exists>px. products ?d1 (in_product_id x) = Some px \<and>
                 in_quantity x \<le> p_stock px - requested (in_product_id x) pre')"
    using lines by simp
  from process_items_succeeds[OF f1 s1 u1 l1] obtain dx where
    run: "process_items e ?sid (csi_cashier_id data) 1 pre ?d1 = (Inr (), dx)"
    by blast
  have p1: "products ?d1 (in_product_id item) = Some p"
    using p by simp
  from process_items_short[OF run p1 short, of post] obtain dy where
    full: "process_items e ?sid (csi_cashier_id data) 1 (pre @ item # post) ?d1 =
      (Inl (InsufficientStock (in_product_name item)
              (p_stock p - requested (in_product_id item) pre) (in_quantity item)), dy)"
    by (cases "process_items e ?sid (csi_cashier_id data) 1 (pre @ item # post) ?d1") auto
  have "fst (create_callback e data d) =
          Inl (InsufficientStock (in_product_name item)
                 (p_stock p - requested (in_product_id item) pre) (in_quantity item))"
    using ins full items
    by (simp add: create_callback_def next_daily_number_def Let_def)
  from withTransaction_Inl[of "create_callback e data" d, OF this] items valid show ?thesis
    by (simp add: create_def)
qed

lemma create_never_covers_short_line:
  assumes "\<forall>x \<in> set (csi_items data). 0 \<le> in_quantity x"
    and "item \<in> set (csi_items data)"
    and "products d (in_product_id item) = Some p"
    and "p_stock p < in_quantity item"
  shows "isl (fst (create e data d))"
proof (rule ccontr)
  assume "\<not> isl (fst (create e data d))"
  from succeeded[OF this] obtain r d' where ok: "create e data d = (Inr r, d')"
    by blast
  from create_Inr[OF ok] obtain d1 where
    ins: "insert_sale (sale_header e data (next_daily_number d (ts_date (js_now e)))) d = Inr d1" and
    run: "process_items e (generateId e 0) (csi_cashier_id data) 1 (csi_items data) d1 = (Inr (), d')"
    by blast
  from insert_sale_Inr[OF ins] have d1: "products d1 = products d"
    by simp
  from assms(2) obtain pre post where split: "csi_items data = pre @ item # post"
    by (auto simp: in_set_conv_decomp)
  from process_items_Inr_checks[OF run split] d1 assms(3)
  have "in_quantity item \<le> p_stock p - requested (in_product_id item) pre"
    by simp
  moreover from assms(1) split have "0 \<le> requested (in_product_id item) pre"
    by (intro requested_nonneg) simp
  ultimately show False
    using assms(4) by simp
qed

lemma process_items_Inr_ids:
  "process_items e sid cashier k items d = (Inr u, d') \<Longrightarrow>
     map si_id (sale_items d') =
       map si_id (sale_items d) @ map (\<lambda>j. generateId e (k + 2 * j)) [0 ..< length items] \<and>
     map sm_id (stock_movements d') =
       map sm_id (stock_movements d) @
         map (\<lambda>j. generateId e (k + 1 + 2 * j)) [0 ..< length items]"
proof (induction items arbitrary: d k)
  case Nil
  then show ?case by simp
next
  case (Cons item rest)
  from process_items_Cons_Inr[OF Cons.prems] obtain p where
    rec: "process_items e sid cashier (k + 2) rest (after_item e sid cashier k item p d) = (Inr u, d')"
    by blast
  have shift: "map f [0 ..< length (item # rest)] = f 0 # map (\<lambda>j. f (Suc j)) [0 ..< length rest]"
    for f :: "nat \<Rightarrow> ident"
    by (simp add: map_upt_Suc del: upt_Suc)
  from Cons.IH[OF rec] show ?case
    unfolding shift
    by (simp add: after_item_simps item_row_def sale_movement_def)
qed

lemma create_reaches_line:
  assumes items: "csi_items data = pre @ item # post"
    and valid: "0 < csi_total data"
    and user: "users d (csi_cashier_id data) \<noteq> None"
    and fresh: "fresh_ids e d 0 (1 + 2 * length pre)"
    and lines: "\<forall>pre' x post'. pre = pre' @ x # post' \<longrightarrow>
           (\<exists>px. products d (in_product_id x) = Some px \<and>
                 in_quantity x \<le> p_stock px - requested (in_product_id x) pre')"
  shows "\<exists>dx. (\<forall>err. fst (process_items e (generateId e 0) (csi_cashier_id data)
                           (1 + 2 * length pre) (item # post) dx) = Inl err \<longrightarrow>
                     create e data d = (Inl err, d)) \<and>
              (\<forall>pid. products dx pid =
                 map_option (\<lambda>p. p\<lparr>p_stock := p_stock p - requested pid pre\<rparr>) (products d pid)) \<and>
              generateId e 0 \<in> set (map s_id (sales dx)) \<and>
              users dx (csi_cashier_id data) \<noteq> None \<and>
              map si_id (sale_items dx) =
                map si_id (sale_items d) @ map (\<lambda>j. generateId e (1 + 2 * j)) [0 ..< length pre] \<and>
              map sm_id (stock_movements dx) =
                map sm_id (stock_movements d) @
                  map (\<lambda>j. generateId e (1 + 1 + 2 * j)) [0 ..< length pre]"
proof -
  let ?sid = "generateId e 0"
  let ?cashier = "csi_cashier_id data"
  let ?hdr = "sale_header e data (next_daily_number d (ts_date (js_now e)))"
  let ?d1 = "d\<lparr>sales := sales d @ [?hdr]\<rparr>"
  have id: "s_id ?hdr = ?sid" "s_cashier_id ?hdr = ?cashier"
    by (simp_all add: sale_header_def)
  from fresh have "fresh_ids e d 0 (Suc (2 * length pre))"
    by simp
  then have "?sid \<notin> used_ids d"
    by (rule fresh_ids_first)
  then have "?sid \<notin> set (map s_id (sales d))"
    by (simp add: used_ids_def)
  with user have ins: "insert_sale ?hdr d = Inr ?d1"
    by (simp add: insert_sale_def id)
  have "used_ids ?d1 \<subseteq> used_ids d \<union> generateId e ` {0 ..< 0 + 1}"
    using used_ids_insert_sale[of d ?hdr] by (simp add: id)
  from fresh_ids_advance[OF fresh this] have f1: "fresh_ids e ?d1 1 (2 * length pre)"
    by simp
  have s1: "?sid \<in> set (map s_id (sales ?d1))"
    by (simp add: id)
  have u1: "users ?d1 ?cashier \<noteq> None"
    using user by simp
  have l1: "\<forall>pre' x post'. pre = pre' @ x # post' \<longrightarrow>
           (\<exists>px. products ?d1 (in_product_id x) = Some px \<and>
                 in_quantity x \<le> p_stock px - requested (in_product_id x) pre')"
    using lines by simp
  from process_items_succeeds[OF f1 s1 u1 l1] obtain dx where
    run: "process_items e ?sid ?cashier 1 pre ?d1 = (Inr (), dx)"
    by blast
  have out: "create e data d = (Inl err, d)"
    if "fst (process_items e ?sid ?cashier (1 + 2 * length pre) (item # post) dx) = Inl err" for err
  proof -
    from that obtain dy where
      "process_items e ?sid ?cashier (1 + 2 * length pre) (item # post) dx = (Inl err, dy)"
      by (cases "process_items e ?sid ?cashier (1 + 2 * length pre) (item # post) dx") auto
    with run have "process_items e ?sid ?cashier 1 (pre @ item # post) ?d1 = (Inl err, dy)"
      by (simp add: process_items_append)
    with ins items have "fst (create_callback e data d) = Inl err"
      by (simp add: create_callback_def next_daily_number_def Let_def)
    from withTransaction_Inl[of "create_callback e data" d, OF this] items valid show ?thesis
      by (simp add: create_def)
  qed
  have prod: "products dx pid =
      map_option (\<lambda>p. p\<lparr>p_stock := p_stock p - requested pid pre\<rparr>) (products d pid)" for pid
    using process_items_Inr_products[OF run, of pid] by simp
  from process_items_Inr_tables[OF run] have tabs: "?sid \<in> set (map s_id (sales dx))"
    "users dx ?cashier \<noteq> None"
    using s1 u1 by simp_all
  from process_items_Inr_ids[OF run] have ids:
    "map si_id (sale_items dx) =
       map si_id (sale_items d) @ map (\<lambda>j. generateId e (1 + 2 * j)) [0 ..< length pre]"
    "map sm_id (stock_movements dx) =
       map sm_id (stock_movements d) @ map (\<lambda>j. generateId e (1 + 1 + 2 * j)) [0 ..< length pre]"
    by simp_all
  from out prod tabs ids show ?thesis
    by blast
qed

lemma process_items_missing:
  "products d (in_product_id item) = None \<Longrightarrow>
     fst (process_items e sid cashier k (item # post) d) = Inl (ProductNotFound (in_product_name item))"
  by (simp add: getProductStock_def)

lemma process_items_item_id_taken:
  "products d (in_product_id item) = Some p \<Longrightarrow> in_quantity item \<le> p_stock p \<Longrightarrow>
     generateId e k \<in> set (map si_id (sale_items d)) \<Longrightarrow>
     fst (process_items e sid cashier k (item # post) d) = Inl (ConstraintFailed PrimaryKey)"
  by (simp add: getProductStock_def insert_sale_item_def)

lemma process_items_movement_id_taken:
  "products d (in_product_id item) = Some p \<Longrightarrow> in_quantity item \<le> p_stock p \<Longrightarrow>
     generateId e k \<notin> set (map si_id (sale_items d)) \<Longrightarrow> sid \<in> set (map s_id (sales d)) \<Longrightarrow>
     generateId e (k + 1) \<in> set (map sm_id (stock_movements d)) \<Longrightarrow>
     fst (process_items e sid cashier k (item # post) d) = Inl (ConstraintFailed PrimaryKey)"
  by (simp add: getProductStock_def insert_sale_item_def add_stock_def insert_stock_movement_def
      Let_def)

lemma create_header_refused:
  "csi_items data \<noteq> [] \<Longrightarrow> 0 < csi_total data \<Longrightarrow>
     create e data d =
       (if generateId e 0 \<in> set (map s_id (sales d)) then (Inl (ConstraintFailed PrimaryKey), d)
        else if users d (csi_cashier_id data) = None then (Inl (ConstraintFailed ForeignKey), d)
        else create e data d)"
  by (simp add: create_def create_callback_def withTransaction_def insert_sale_def
      sale_header_def Let_def)

text \<open>
  C2, as the code has it. Whatever makes \<open>create\<close> fail, the store comes back as it
  was. A request without negative quantities in which some line asks for more than the
  current stock of its product does fail. The error is the insufficient-stock error,
  carrying the line's product name, the stock left for it by the earlier lines of the
  same product and the quantity asked, when the total is positive, the cashier is a user,
  the generated ids are fresh and every earlier line finds its product and enough stock.
  When an earlier check fails, the error is that check's: the validation error of an
  empty list of items or of a total that is not positive; the primary-key error of the
  store when the id generated for the header is taken, and its foreign-key error when
  the cashier is not a user; and, for a request that gets as far as a line, the
  not-found error carrying the line's product name when the product row is missing, and
  the primary-key error of the store when the line passes its two checks and the id
  generated for its item or for its movement is already in the table.
\<close>

theorem create_insufficient_stock:
  "(isl (fst (create e data d)) \<longrightarrow> snd (create e data d) = d) \<and>
   ((\<forall>x \<in> set (csi_items data). 0 \<le> in_quantity x) \<and> item \<in> set (csi_items data) \<and>
    products d (in_product_id item) = Some p \<and> p_stock p < in_quantity item \<longrightarrow>
      isl (fst (create e data d)) \<and> snd (create e data d) = d) \<and>
   (csi_items data = pre @ item # post \<and> 0 < csi_total data \<and>
    users d (csi_cashier_id data) \<noteq> None \<and> fresh_ids e d 0 (1 + 2 * length pre) \<and>
    (\<forall>pre' x post'. pre = pre' @ x # post' \<longrightarrow>
       (\<exists>px. products d (in_product_id x) = Some px \<and>
             in_quantity x \<le> p_stock px - requested (in_product_id x) pre')) \<and>
    products d (in_product_id item) = Some p \<and>
    p_stock p - requested (in_product_id item) pre < in_quantity item \<longrightarrow>
      create e data d =
        (Inl (InsufficientStock (in_product_name item)
                (p_stock p - requested (in_product_id item) pre) (in_quantity item)), d)) \<and>
   (csi_items data = [] \<longrightarrow> create e data d = (Inl SaleEmpty, d)) \<and>
   (csi_items data \<noteq> [] \<and> csi_total data \<le> 0 \<longrightarrow>
      create e data d = (Inl TotalNotPositive, d)) \<and>
   (csi_items data \<noteq> [] \<and> 0 < csi_total data \<and>
    generateId e 0 \<in> set (map s_id (sales d)) \<longrightarrow>
      create e data d = (Inl (ConstraintFailed PrimaryKey), d)) \<and>
   (csi_items data \<noteq> [] \<and> 0 < csi_total data \<and>
    generateId e 0 \<notin> set (map s_id (sales d)) \<and> users d (csi_cashier_id data) = None \<longrightarrow>
      create e data d = (Inl (ConstraintFailed ForeignKey), d)) \<and>
   (reaches_line e data d pre item post \<and> products d (in_product_id item) = None \<longrightarrow>
      create e data d = (Inl (ProductNotFound (in_product_name item)), d)) \<and>
   (reaches_line e data d pre item post \<and> products d (in_product_id item) = Some p \<and>
    in_quantity item \<le> p_stock p - requested (in_product_id item) pre \<and>
    generateId e (1 + 2 * length pre) \<in>
      set (map si_id (sale_items d)) \<union> (\<lambda>j. generateId e (1 + 2 * j)) ` {0 ..< length pre} \<longrightarrow>
      create e data d = (Inl (ConstraintFailed PrimaryKey), d)) \<and>
   (reaches_line e data d pre item post \<and> products d (in_product_id item) = Some p \<and>
    in_quantity item \<le> p_stock p - requested (in_product_id item) pre \<and>
    generateId e (1 + 2 * length pre) \<notin>
      set (map si_id (sale_items d)) \<union> (\<lambda>j. generateId e (1 + 2 * j)) ` {0 ..< length pre} \<and>
    generateId e (2 + 2 * length pre) \<in>
      set (map sm_id (stock_movements d)) \<union> (\<lambda>j. generateId e (2 + 2 * j)) ` {0 ..< length pre}
    \<longrightarrow> create e data d = (Inl (ConstraintFailed PrimaryKey), d))"
proof -
  have undone: "snd (create e data d) = d" if "isl (fst (create e data d))"
  proof -
    from that obtain err where "fst (create e data d) = Inl err"
      by (cases "fst (create e data d)") auto
    then show ?thesis by (rule create_rollback)
  qed
  have never: "isl (fst (create e data d)) \<and> snd (create e data d) = d"
    if "(\<forall>x \<in> set (csi_items data). 0 \<le> in_quantity x) \<and> item \<in> set (csi_items data) \<and>
      products d (in_product_id item) = Some p \<and> p_stock p < in_quantity item"
  proof -
    from that have "isl (fst (create e data d))"
      using create_never_covers_short_line[of data item d p e] by blast
    with undone show ?thesis by simp
  qed
  have short: "create e data d =
        (Inl (InsufficientStock (in_product_name item)
                (p_stock p - requested (in_product_id item) pre) (in_quantity item)), d)"
    if "csi_items data = pre @ item # post \<and> 0 < csi_total data \<and>
      users d (csi_cashier_id data) \<noteq> None \<and> fresh_ids e d 0 (1 + 2 * length pre) \<and>
      (\<forall>pre' x post'. pre = pre' @ x # post' \<longrightarrow>
         (\<exists>px. products d (in_product_id x) = Some px \<and>
               in_quantity x \<le> p_stock px - requested (in_product_id x) pre')) \<and>
      products d (in_product_id item) = Some p \<and>
      p_stock p - requested (in_product_id item) pre < in_quantity item"
    using that create_short_line[of data pre item post d e p] by blast
  have empty: "create e data d = (Inl SaleEmpty, d)" if "csi_items data = []"
    using that by (simp add: create_def)
  have total: "create e data d = (Inl TotalNotPositive, d)"
    if "csi_items data \<noteq> [] \<and> csi_total data \<le> 0"
    using that by (simp add: create_def)
  have pk: "create e data d = (Inl (ConstraintFailed PrimaryKey), d)"
    if "csi_items data \<noteq> [] \<and> 0 < csi_total data \<and>
      generateId e 0 \<in> set (map s_id (sales d))"
    using that create_header_refused[of data e d] by simp
  have fk: "create e data d = (Inl (ConstraintFailed ForeignKey), d)"
    if "csi_items data \<noteq> [] \<and> 0 < csi_total data \<and>
      generateId e 0 \<notin> set (map s_id (sales d)) \<and> users d (csi_cashier_id data) = None"
    using that create_header_refused[of data e d] by simp
  have line: "\<exists>dx. (\<forall>err. fst (process_items e (generateId e 0) (csi_cashier_id data)
                           (1 + 2 * length pre) (item # post) dx) = Inl err \<longrightarrow>
                     create e data d = (Inl err, d)) \<and>
              (\<forall>pid. products dx pid =
                 map_option (\<lambda>p. p\<lparr>p_stock := p_stock p - requested pid pre\<rparr>) (products d pid)) \<and>
              generateId e 0 \<in> set (map s_id (sales dx)) \<and>
              users dx (csi_cashier_id data) \<noteq> None \<and>
              map si_id (sale_items dx) =
                map si_id (sale_items d) @ map (\<lambda>j. generateId e (1 + 2 * j)) [0 ..< length pre] \<and>
              map sm_id (stock_movements dx) =
                map sm_id (stock_movements d) @
                  map (\<lambda>j. generateId e (1 + 1 + 2 * j)) [0 ..< length pre]"
    if "reaches_line e data d pre item post"
    using that unfolding reaches_line_def
    by (intro create_reaches_line) simp_all
  have missing: "create e data d = (Inl (ProductNotFound (in_product_name item)), d)"
    if "reaches_line e data d pre item post \<and> products d (in_product_id item) = None"
  proof -
    from that line obtain dx where
      out: "\<And>err. fst (process_items e (generateId e 0) (csi_cashier_id data)
                (1 + 2 * length pre) (item # post) dx) = Inl err \<Longrightarrow> create e data d = (Inl err, d)"
      and prod: "\<And>pid. products dx pid =
                 map_option (\<lambda>p. p\<lparr>p_stock := p_stock p - requested pid pre\<rparr>) (products d pid)"
      by blast
    from that prod have "products dx (in_product_id item) = None"
      by simp
    from out[OF process_items_missing[OF this]] show ?thesis .
  qed
  have item_id: "create e data d = (Inl (ConstraintFailed PrimaryKey), d)"
    if "reaches_line e data d pre item post \<and> products d (in_product_id item) = Some p \<and>
      in_quantity item \<le> p_stock p - requested (in_product_id item) pre \<and>
      generateId e (1 + 2 * length pre) \<in>
        set (map si_id (sale_items d)) \<union> (\<lambda>j. generateId e (1 + 2 * j)) ` {0 ..< length pre}"
  proof -
    from that line obtain dx where
      out: "\<And>err. fst (process_items e (generateId e 0) (csi_cashier_id data)
                (1 + 2 * length pre) (item # post) dx) = Inl err \<Longrightarrow> create e data d = (Inl err, d)"
      and prod: "\<And>pid. products dx pid =
                 map_option (\<lambda>p. p\<lparr>p_stock := p_stock p - requested pid pre\<rparr>) (products d pid)"
      and ids: "map si_id (sale_items dx) =
                map si_id (sale_items d) @ map (\<lambda>j. generateId e (1 + 2 * j)) [0 ..< length pre]"
      by blast
    let ?px = "p\<lparr>p_stock := p_stock p - requested (in_product_id item) pre\<rparr>"
    from that prod have px: "products dx (in_product_id item) = Some ?px"
      "in_quantity item \<le> p_stock ?px"
      by simp_all
    from that have "generateId e (1 + 2 * length pre) \<in> set (map si_id (sale_items dx))"
      unfolding ids by simp
    from out[OF process_items_item_id_taken[OF px this]] show ?thesis .
  qed
  have move_id: "create e data d = (Inl (ConstraintFailed PrimaryKey), d)"
    if "reaches_line e data d pre item post \<and> products d (in_product_id item) = Some p \<and>
      in_quantity item \<le> p_stock p - requested (in_product_id item) pre \<and>
      generateId e (1 + 2 * length pre) \<notin>
        set (map si_id (sale_items d)) \<union> (\<lambda>j. generateId e (1 + 2 * j)) ` {0 ..< length pre} \<and>
      generateId e (2 + 2 * length pre) \<in>
        set (map sm_id (stock_movements d)) \<union> (\<lambda>j. generateId e (2 + 2 * j)) ` {0 ..< length pre}"
  proof -
    from that line obtain dx where
      out: "\<And>err. fst (process_items e (generateId e 0) (csi_cashier_id data)
                (1 + 2 * length pre) (item # post) dx) = Inl err \<Longrightarrow> create e data d = (Inl err, d)"
      and prod: "\<And>pid. products dx pid =
                 map_option (\<lambda>p. p\<lparr>p_stock := p_stock p - requested pid pre\<rparr>) (products d pid)"
      and sale: "generateId e 0 \<in> set (map s_id (sales dx))"
      and ids: "map si_id (sale_items dx) =
                map si_id (sale_items d) @ map (\<lambda>j. generateId e (1 + 2 * j)) [0 ..< length pre]"
        "map sm_id (stock_movements dx) =
                map sm_id (stock_movements d) @
                  map (\<lambda>j. generateId e (1 + 1 + 2 * j)) [0 ..< length pre]"
      by blast
    let ?px = "p\<lparr>p_stock := p_stock p - requested (in_product_id item) pre\<rparr>"
    from that prod have px: "products dx (in_product_id item) = Some ?px"
      "in_quantity item \<le> p_stock ?px"
      by simp_all
    from that have new: "generateId e (1 + 2 * length pre) \<notin> set (map si_id (sale_items dx))"
      unfolding ids(1) by simp
    from that have "generateId e (1 + 2 * length pre + 1) \<in> set (map sm_id (stock_movements dx))"
      unfolding ids(2) by simp
    from out[OF process_items_movement_id_taken[OF px new sale this]] show ?thesis .
  qed
  from undone never short empty total pk fk missing item_id move_id show ?thesis
    by blast
qed

lemma ex_lines:
  "\<forall>pre' x post'. [ex_item ''p1'' ''Cuaderno'' 3] = pre' @ x # post' \<longrightarrow>
     (\<exists>px. products ex_db (in_product_id x) = Some px \<and>
           in_quantity x \<le> p_stock px - requested (in_product_id x) pre')"
  by (auto simp: Cons_eq_append_conv ex_item_def ex_product_def ex_db_def)

theorem create_insufficient_stock_witness:
  "create (ex_env ''a'' 1)
     (ex_req [ex_item ''p1'' ''Cuaderno'' 3, ex_item ''p1'' ''Cuaderno'' 8] 33) ex_db
     = (Inl (InsufficientStock ''Cuaderno'' 7 8), ex_db) \<and>
   map sm_new_stock (stock_movements (snd (create_callback (ex_env ''a'' 1)
     (ex_req [ex_item ''p1'' ''Cuaderno'' 3, ex_item ''p1'' ''Cuaderno'' 8] 33) ex_db))) = [7] \<and>
   isl (fst (create (ex_env ''a'' 1)
     (ex_req [ex_item ''p1'' ''Cuaderno'' 3, ex_item ''p1'' ''Cuaderno'' 11] 42) ex_db)) \<and>
   snd (create (ex_env ''a'' 1)
     (ex_req [ex_item ''p1'' ''Cuaderno'' 3, ex_item ''p1'' ''Cuaderno'' 11] 42) ex_db) = ex_db \<and>
   create (ex_env ''a'' 1) (ex_req [] 33) ex_db = (Inl SaleEmpty, ex_db) \<and>
   create (ex_env ''a'' 1) (ex_req [ex_item ''p1'' ''Cuaderno'' 11] 0) ex_db
     = (Inl TotalNotPositive, ex_db) \<and>
   create (ex_env ''s1'' 1) (ex_req [ex_item ''p1'' ''Cuaderno'' 11] 33) ex_db_busy
     = (Inl (ConstraintFailed PrimaryKey), ex_db_busy) \<and>
   create (ex_env ''a'' 1)
     (ex_req [ex_item ''p1'' ''Cuaderno'' 11] 33\<lparr>csi_cashier_id := ''ghost''\<rparr>) ex_db
     = (Inl (ConstraintFailed ForeignKey), ex_db) \<and>
   create (ex_env ''a'' 1)
     (ex_req [ex_item ''p1'' ''Cuaderno'' 3, ex_item ''p9'' ''Borrador'' 1] 12) ex_db
     = (Inl (ProductNotFound ''Borrador''), ex_db) \<and>
   create (ex_env ''a'' 1) (ex_req [ex_item ''p1'' ''Cuaderno'' 3] 9) ex_db_taken
     = (Inl (ConstraintFailed PrimaryKey), ex_db_taken) \<and>
   create (ex_env ''b'' 1) (ex_req [ex_item ''p1'' ''Cuaderno'' 3] 9) ex_db_taken
     = (Inl (ConstraintFailed PrimaryKey), ex_db_taken)"
proof -
  let ?e = "ex_env ''a'' 1"
  let ?i3 = "ex_item ''p1'' ''Cuaderno'' 3"
  let ?i8 = "ex_item ''p1'' ''Cuaderno'' 8"
  let ?i9 = "ex_item ''p9'' ''Borrador'' 1"
  let ?i11 = "ex_item ''p1'' ''Cuaderno'' 11"
  let ?p = "ex_product ''Cuaderno'' 10 True"
  have p: "products ex_db (in_product_id ?i8) = Some ?p" "products ex_db (in_product_id ?i11) = Some ?p"
    "products ex_db (in_product_id ?i3) = Some ?p" "products ex_db (in_product_id ?i9) = None"
    "products ex_db_taken (in_product_id ?i3) = Some ?p"
    by (simp_all add: ex_defs)
  have fresh: "fresh_ids ?e ex_db 0 (1 + 2 * length [?i3])"
    by (simp add: fresh_ids_def ex_env_def ex_gen_inj used_ids_def ex_db_def)
  have "csi_items (ex_req [?i3, ?i8] 33) = [?i3] @ ?i8 # [] \<and> 0 < csi_total (ex_req [?i3, ?i8] 33) \<and>
    users ex_db (csi_cashier_id (ex_req [?i3, ?i8] 33)) \<noteq> None \<and>
    fresh_ids ?e ex_db 0 (1 + 2 * length [?i3]) \<and>
    (\<forall>pre' x post'. [?i3] = pre' @ x # post' \<longrightarrow>
       (\<exists>px. products ex_db (in_product_id x) = Some px \<and>
             in_quantity x \<le> p_stock px - requested (in_product_id x) pre')) \<and>
    products ex_db (in_product_id ?i8) = Some ?p \<and>
    p_stock ?p - requested (in_product_id ?i8) [?i3] < in_quantity ?i8"
    using fresh ex_lines p(1) by (simp add: ex_req_def ex_db_def ex_item_def ex_product_def)
  from create_insufficient_stock[THEN conjunct2, THEN conjunct2, THEN conjunct1, rule_format, OF this]
  have a: "create ?e (ex_req [?i3, ?i8] 33) ex_db = (Inl (InsufficientStock ''Cuaderno'' 7 8), ex_db)"
    by (simp add: ex_item_def ex_product_def)
  have "(\<forall>x \<in> set (csi_items (ex_req [?i3, ?i11] 42)). 0 \<le> in_quantity x) \<and>
    ?i11 \<in> set (csi_items (ex_req [?i3, ?i11] 42)) \<and>
    products ex_db (in_product_id ?i11) = Some ?p \<and> p_stock ?p < in_quantity ?i11"
    using p(2) by (simp add: ex_req_def ex_item_def ex_product_def)
  from create_insufficient_stock[THEN conjunct2, THEN conjunct1, rule_format, OF this]
  have b: "isl (fst (create ?e (ex_req [?i3, ?i11] 42) ex_db))"
    "snd (create ?e (ex_req [?i3, ?i11] 42) ex_db) = ex_db"
    by simp_all
  have c: "map sm_new_stock (stock_movements (snd (create_callback ?e (ex_req [?i3, ?i8] 33) ex_db))) = [7]"
    by (simp add: statement_defs service_defs ex_defs)
  note rest = create_insufficient_stock[THEN conjunct2, THEN conjunct2, THEN conjunct2]
  have "csi_items (ex_req [] 33) = []"
    by (simp add: ex_req_def)
  from rest[THEN conjunct1, rule_format, OF this]
  have d4: "create ?e (ex_req [] 33) ex_db = (Inl SaleEmpty, ex_db)" .
  have "csi_items (ex_req [?i11] 0) \<noteq> [] \<and> csi_total (ex_req [?i11] 0) \<le> 0"
    by (simp add: ex_req_def)
  from rest[THEN conjunct2, THEN conjunct1, rule_format, OF this]
  have d5: "create ?e (ex_req [?i11] 0) ex_db = (Inl TotalNotPositive, ex_db)" .
  have "csi_items (ex_req [?i11] 33) \<noteq> [] \<and> 0 < csi_total (ex_req [?i11] 33) \<and>
    generateId (ex_env ''s1'' 1) 0 \<in> set (map s_id (sales ex_db_busy))"
    by (simp add: ex_defs)
  from rest[THEN conjunct2, THEN conjunct2, THEN conjunct1, rule_format, OF this]
  have d6: "create (ex_env ''s1'' 1) (ex_req [?i11] 33) ex_db_busy
      = (Inl (ConstraintFailed PrimaryKey), ex_db_busy)" .
  let ?ghost = "ex_req [?i11] 33\<lparr>csi_cashier_id := ''ghost''\<rparr>"
  have "csi_items ?ghost \<noteq> [] \<and> 0 < csi_total ?ghost \<and>
    generateId ?e 0 \<notin> set (map s_id (sales ex_db)) \<and> users ex_db (csi_cashier_id ?ghost) = None"
    by (simp add: ex_defs)
  from rest[THEN conjunct2, THEN conjunct2, THEN conjunct2, THEN conjunct1, rule_format, OF this]
  have d7: "create ?e ?ghost ex_db = (Inl (ConstraintFailed ForeignKey), ex_db)" .
  note lines = rest[THEN conjunct2, THEN conjunct2, THEN conjunct2, THEN conjunct2]
  have "reaches_line ?e (ex_req [?i3, ?i9] 12) ex_db [?i3] ?i9 [] \<and>
    products ex_db (in_product_id ?i9) = None"
    unfolding reaches_line_def
    using fresh ex_lines p(4) by (simp add: ex_req_def ex_db_def)
  from lines[THEN conjunct1, rule_format, OF this]
  have d8: "create ?e (ex_req [?i3, ?i9] 12) ex_db = (Inl (ProductNotFound ''Borrador''), ex_db)"
    by (simp add: ex_item_def)
  have reach: "reaches_line (ex_env tag 1) (ex_req [?i3] 9) ex_db_taken [] ?i3 []"
    if "tag = ''a'' \<or> tag = ''b''" for tag
    unfolding reaches_line_def
    using that by (auto simp: fresh_ids_def used_ids_def ex_defs)
  have "reaches_line ?e (ex_req [?i3] 9) ex_db_taken [] ?i3 [] \<and>
    products ex_db_taken (in_product_id ?i3) = Some ?p \<and>
    in_quantity ?i3 \<le> p_stock ?p - requested (in_product_id ?i3) [] \<and>
    generateId ?e (1 + 2 * length ([] :: sale_item_input list)) \<in>
      set (map si_id (sale_items ex_db_taken)) \<union>
      (\<lambda>j. generateId ?e (1 + 2 * j)) ` {0 ..< length ([] :: sale_item_input list)}"
    using reach[of "''a''"] p(5) by (simp add: ex_defs)
  from lines[THEN conjunct2, THEN conjunct1, rule_format, OF this]
  have d9: "create ?e (ex_req [?i3] 9) ex_db_taken = (Inl (ConstraintFailed PrimaryKey), ex_db_taken)" .
  have "reaches_line (ex_env ''b'' 1) (ex_req [?i3] 9) ex_db_taken [] ?i3 [] \<and>
    products ex_db_taken (in_product_id ?i3) = Some ?p \<and>
    in_quantity ?i3 \<le> p_stock ?p - requested (in_product_id ?i3) [] \<and>
    generateId (ex_env ''b'' 1) (1 + 2 * length ([] :: sale_item_input list)) \<notin>
      set (map si_id (sale_items ex_db_taken)) \<union>
      (\<lambda>j. generateId (ex_env ''b'' 1) (1 + 2 * j)) ` {0 ..< length ([] :: sale_item_input list)} \<and>
    generateId (ex_env ''b'' 1) (2 + 2 * length ([] :: sale_item_input list)) \<in>
      set (map sm_id (stock_movements ex_db_taken)) \<union>
      (\<lambda>j. generateId (ex_env ''b'' 1) (2 + 2 * j)) ` {0 ..< length ([] :: sale_item_input list)}"
    using reach[of "''b''"] p(5) by (simp add: ex_defs numeral_2_eq_2)
  from lines[THEN conjunct2, THEN conjunct2, rule_format, OF this]
  have d10: "create (ex_env ''b'' 1) (ex_req [?i3] 9) ex_db_taken
      = (Inl (ConstraintFailed PrimaryKey), ex_db_taken)" .
  from a b c d4 d5 d6 d7 d8 d9 d10 show ?thesis by simp
qed

text \<open>
  The claim as the specification words it promises the insufficient-stock error for
  every request with a line that exceeds the stock. A request with a total of 0, with
  an earlier line for a product that does not exist, or from a cashier who is not a
  user fails on that earlier check instead; the store is unchanged all the same.
\<close>

theorem create_fails_on_earlier_check:
  "map_option p_stock (products ex_db ''p1'') = Some 10 \<and>
   create (ex_env ''a'' 1) (ex_req [ex_item ''p1'' ''Cuaderno'' 11] 0) ex_db
     = (Inl TotalNotPositive, ex_db) \<and>
   create (ex_env ''a'' 1)
     (ex_req [ex_item ''p9'' ''Borrador'' 1, ex_item ''p1'' ''Cuaderno'' 11] 36) ex_db
     = (Inl (ProductNotFound ''Borrador''), ex_db) \<and>
   create (ex_env ''a'' 1)
     (ex_req [ex_item ''p1'' ''Cuaderno'' 11] 33\<lparr>csi_cashier_id := ''ghost''\<rparr>) ex_db
     = (Inl (ConstraintFailed ForeignKey), ex_db)"
  by (simp add: statement_defs service_defs ex_defs)

section \<open>Stock that stays non-negative\<close>

lemma adjustStock_Inr:
  assumes "adjustStock e pid q reason userId d = (Inr u, d')"
  shows "\<exists>p. products d pid = Some p \<and> 0 \<le> p_stock p + q \<and>
           products d' = (products d)(pid \<mapsto> p\<lparr>p_stock := p_stock p + q\<rparr>) \<and>
           sales d' = sales d \<and> sale_items d' = sale_items d \<and> users d' = users d"
proof -
  from assms have cb: "adjustStock_callback e pid q reason userId d = (Inr u, d')"
    by (simp add: adjustStock_def withTransaction_Inr_iff)
  then obtain p where p: "products d pid = Some p"
    by (cases "products d pid") (auto simp: adjustStock_callback_def)
  with cb have "0 \<le> p_stock p + q"
    by (auto simp: adjustStock_callback_def Let_def split: if_splits)
  with cb p show ?thesis
    by (auto simp: adjustStock_callback_def Let_def set_stock_def insert_stock_movement_def
        split: if_splits)
qed

lemma sold_nonneg:
  "\<forall>row \<in> set rows. 0 \<le> si_quantity row \<Longrightarrow> 0 \<le> sold pid rows"
  by (induction rows) auto

lemma create_keeps_stock_nonneg:
  assumes "create e data d = (Inr r, d')" and "stock_nonneg d"
  shows "stock_nonneg d'"
  unfolding stock_nonneg_def
proof (intro allI impI)
  fix pid p'
  assume p': "products d' pid = Some p'"
  from create_Inr[OF assms(1)] obtain d1 where
    ins: "insert_sale (sale_header e data (next_daily_number d (ts_date (js_now e)))) d = Inr d1" and
    run: "process_items e (generateId e 0) (csi_cashier_id data) 1 (csi_items data) d1 = (Inr (), d')"
    by blast
  from insert_sale_Inr[OF ins] have d1: "products d1 = products d"
    by simp
  from process_items_Inr_products[OF run, of pid] d1 p' obtain p where
    p: "products d pid = Some p" "p_stock p' = p_stock p - requested pid (csi_items data)"
    by (cases "products d pid") auto
  show "0 \<le> p_stock p'"
  proof (cases "pid \<in> set (map in_product_id (csi_items data))")
    case True
    from process_items_Inr_covers[OF run True] d1 p show ?thesis by simp
  next
    case False
    then have "filter (\<lambda>item. in_product_id item = pid) (csi_items data) = []"
      by (auto simp: filter_empty_conv)
    then have "requested pid (csi_items data) = 0"
      by (simp add: requested_def)
    with p assms(2) show ?thesis by (simp add: stock_nonneg_def)
  qed
qed

lemma create_keeps_items_nonneg:
  assumes "create e data d = (Inr r, d')" and "items_nonneg d"
    and "\<forall>x \<in> set (csi_items data). 0 \<le> in_quantity x"
  shows "items_nonneg d'"
proof -
  from create_Inr[OF assms(1)] obtain d1 where
    ins: "insert_sale (sale_header e data (next_daily_number d (ts_date (js_now e)))) d = Inr d1" and
    run: "process_items e (generateId e 0) (csi_cashier_id data) 1 (csi_items data) d1 = (Inr (), d')"
    by blast
  from insert_sale_Inr[OF ins] have d1: "sale_items d1 = sale_items d"
    by simp
  from process_items_Inr_sale_items[OF run] d1 obtain rows where
    rows: "sale_items d' = sale_items d @ rows"
      "list_all2 (\<lambda>item row. \<exists>j. row = item_row e (generateId e 0) j item) (csi_items data) rows"
    by auto
  have "0 \<le> si_quantity row" if "row \<in> set rows" for row
  proof -
    from that obtain i where i: "i < length rows" "rows ! i = row"
      by (auto simp: in_set_conv_nth)
    from rows(2) have len: "length (csi_items data) = length rows"
      by (rule list_all2_lengthD)
    from list_all2_nthD2[OF rows(2) i(1)] i(2) obtain j where
      "row = item_row e (generateId e 0) j (csi_items data ! i)"
      by auto
    moreover have "csi_items data ! i \<in> set (csi_items data)"
      using i(1) len by simp
    ultimately have "\<exists>item \<in> set (csi_items data). si_quantity row = in_quantity item"
      by (auto simp: item_row_def)
    with assms(3) show ?thesis by auto
  qed
  with assms(2) rows(1) show ?thesis
    by (auto simp: items_nonneg_def)
qed

lemma cancel_keeps_stock_nonneg:
  assumes "cancel e sid userId d = (Inr u, d')" and "stock_nonneg d" and "items_nonneg d"
  shows "stock_nonneg d' \<and> items_nonneg d'"
proof -
  from cancel_Inr[OF assms(1)] obtain sale d1 where
    rev: "revert_items e sid userId sale 0 (select_sale_items d sid) d = (Inr (), d1)" and
    d': "d' = deactivate_sale sid d1"
    by blast
  from assms(3) have "\<forall>row \<in> set (select_sale_items d sid). 0 \<le> si_quantity row"
    by (simp add: items_nonneg_def select_sale_items_def)
  then have given_back: "0 \<le> sold pid (select_sale_items d sid)" for pid
    by (rule sold_nonneg)
  have "0 \<le> p_stock p'" if "products d' pid = Some p'" for pid p'
  proof -
    from revert_items_Inr_products[OF rev, of pid] that d' obtain p where
      "products d pid = Some p" "p_stock p' = p_stock p + sold pid (select_sale_items d sid)"
      by (cases "products d pid") (auto simp: deactivate_sale_simps)
    with assms(2) given_back[of pid] show ?thesis
      by (simp add: stock_nonneg_def)
  qed
  moreover from revert_items_Inr_tables[OF rev] d' assms(3) have "items_nonneg d'"
    by (simp add: items_nonneg_def deactivate_sale_simps)
  ultimately show ?thesis
    by (simp add: stock_nonneg_def)
qed

lemma adjustStock_keeps_stock_nonneg:
  assumes "adjustStock e pid q reason userId d = (Inr u, d')"
    and "stock_nonneg d" and "items_nonneg d"
  shows "stock_nonneg d' \<and> items_nonneg d'"
  using adjustStock_Inr[OF assms(1)] assms(2,3)
  by (auto simp: stock_nonneg_def items_nonneg_def split: if_splits)

lemma run_operation_keeps_stock_nonneg:
  assumes "run_operation op d = Some d'" and "lines_nonneg op"
    and "stock_nonneg d" and "items_nonneg d"
  shows "stock_nonneg d' \<and> items_nonneg d'"
proof (cases op)
  case (CreateSale e data)
  with assms(1) obtain r where run: "create e data d = (Inr r, d')"
    by (auto split: prod.splits sum.splits)
  from CreateSale assms(2) have "\<forall>x \<in> set (csi_items data). 0 \<le> in_quantity x"
    by simp
  from create_keeps_stock_nonneg[OF run assms(3)] create_keeps_items_nonneg[OF run assms(4) this]
  show ?thesis ..
next
  case (Cancel e sid userId)
  with assms(1) obtain u where run: "cancel e sid userId d = (Inr u, d')"
    by (auto split: prod.splits sum.splits)
  from cancel_keeps_stock_nonneg[OF run assms(3,4)] show ?thesis .
next
  case (AdjustStock e pid q reason userId)
  with assms(1) obtain u where run: "adjustStock e pid q reason userId d = (Inr u, d')"
    by (auto split: prod.splits sum.splits)
  from adjustStock_keeps_stock_nonneg[OF run assms(3,4)] show ?thesis .
qed

text \<open>
  As long as no request carries a negative quantity, and none is stored, every run of
  successful operations that starts without negative stock ends without negative stock.
\<close>

theorem stock_nonneg_without_negative_quantities:
  assumes "run_all ops d = Some d'"
    and "\<forall>op \<in> set ops. lines_nonneg op"
    and "stock_nonneg d" and "items_nonneg d"
  shows "stock_nonneg d'"
proof -
  from assms have "stock_nonneg d' \<and> items_nonneg d'"
  proof (induction ops arbitrary: d)
    case Nil
    then show ?case by simp
  next
    case (Cons op ops)
    from Cons.prems(1) obtain d1 where
      step: "run_operation op d = Some d1" and rest: "run_all ops d1 = Some d'"
      by (auto split: option.splits)
    from run_operation_keeps_stock_nonneg[OF step] Cons.prems have
      "stock_nonneg d1 \<and> items_nonneg d1"
      by simp
    with Cons.IH[OF rest] Cons.prems(2) show ?case by simp
  qed
  then show ?thesis ..
qed

text \<open>
  C1. The stock of a product that starts non-negative should be non-negative after
  every run of successful sales, cancellations and adjustments. It is not when a
  request carries a negative quantity, which \<open>create\<close> accepts: its stock check
  passes, the stock goes up, and cancelling the sale later takes the units away again
  without any check. From a stock of 10: a sale of -5 units gives 15, an adjustment of
  -15 gives 0, and the cancellation of the sale gives -5. Each of the three operations
  succeeds.
\<close>

theorem stock_negative_after_cancel:
  "map_option p_stock (products ex_db ''p1'') = Some 10 \<and>
   map_option (\<lambda>d. map_option p_stock (products d ''p1''))
     (run_all [CreateSale (ex_env ''a'' 1) (ex_req [ex_item ''p1'' ''Cuaderno'' (- 5)] 9)]
        ex_db) = Some (Some 15) \<and>
   map_option (\<lambda>d. map_option p_stock (products d ''p1''))
     (run_all [CreateSale (ex_env ''a'' 1) (ex_req [ex_item ''p1'' ''Cuaderno'' (- 5)] 9),
               AdjustStock (ex_env ''m'' 1) ''p1'' (- 15) ''merma'' ''admin-001'']
        ex_db) = Some (Some 0) \<and>
   map_option (\<lambda>d. map_option p_stock (products d ''p1''))
     (run_all [CreateSale (ex_env ''a'' 1) (ex_req [ex_item ''p1'' ''Cuaderno'' (- 5)] 9),
               AdjustStock (ex_env ''m'' 1) ''p1'' (- 15) ''merma'' ''admin-001'',
               Cancel (ex_env ''c'' 1) ''a'' ''admin-001'']
        ex_db) = Some (Some (- 5))"
  by (simp add: statement_defs service_defs ex_defs)

section \<open>Referential integrity of the sale items\<close>

text \<open>
  That every sale item belongs to a sale is an invariant of the engine: it holds of a
  store without sale items, and every successful operation keeps it.
\<close>

lemma deactivate_sale_ids:
  "map s_id (sales (deactivate_sale sid d)) = map s_id (sales d)"
  by (induction "sales d" arbitrary: d) (simp_all add: deactivate_sale_simps)

lemma create_keeps_items_reference_sales:
  assumes "create e data d = (Inr r, d')" and "items_reference_sales d"
  shows "items_reference_sales d'"
proof -
  obtain sale n where r: "r = (sale, n)"
    by (cases r)
  note hdr = create_Inr_header[OF assms(1)[unfolded r]]
  from create_Inr[OF assms(1)] obtain d1 where
    ins: "insert_sale (sale_header e data (next_daily_number d (ts_date (js_now e)))) d = Inr d1" and
    run: "process_items e (generateId e 0) (csi_cashier_id data) 1 (csi_items data) d1 = (Inr (), d')"
    by blast
  from insert_sale_Inr[OF ins] have d1: "sale_items d1 = sale_items d"
    by simp
  from process_items_Inr_sale_items[OF run] d1 obtain rows where
    rows: "sale_items d' = sale_items d @ rows"
      "list_all2 (\<lambda>item row. \<exists>j. row = item_row e (generateId e 0) j item) (csi_items data) rows"
    by auto
  from item_rows_of_sale[OF rows(2)] have "\<forall>row \<in> set rows. si_sale_id row = generateId e 0"
    by (metis (mono_tags, lifting) filter_id_conv)
  with assms(2) rows(1) hdr show ?thesis
    by (auto simp: items_reference_sales_def sale_header_def)
qed

lemma cancel_keeps_items_reference_sales:
  assumes "cancel e sid userId d = (Inr u, d')" and "items_reference_sales d"
  shows "items_reference_sales d'"
proof -
  from cancel_Inr[OF assms(1)] obtain sale d1 where
    rev: "revert_items e sid userId sale 0 (select_sale_items d sid) d = (Inr (), d1)" and
    d': "d' = deactivate_sale sid d1"
    by blast
  from revert_items_Inr_tables[OF rev] d' have
    "sale_items d' = sale_items d" "map s_id (sales d') = map s_id (sales d)"
    using deactivate_sale_ids[of sid d1] by (simp_all add: deactivate_sale_simps)
  with assms(2) show ?thesis
    by (simp add: items_reference_sales_def)
qed

lemma run_operation_keeps_items_reference_sales:
  assumes "run_operation op d = Some d'" and "items_reference_sales d"
  shows "items_reference_sales d'"
proof (cases op)
  case (CreateSale e data)
  with assms(1) obtain r where run: "create e data d = (Inr r, d')"
    by (auto split: prod.splits sum.splits)
  from create_keeps_items_reference_sales[OF run assms(2)] show ?thesis .
next
  case (Cancel e sid userId)
  with assms(1) obtain u where run: "cancel e sid userId d = (Inr u, d')"
    by (auto split: prod.splits sum.splits)
  from cancel_keeps_items_reference_sales[OF run assms(2)] show ?thesis .
next
  case (AdjustStock e pid q reason userId)
  with assms(1) obtain u where run: "adjustStock e pid q reason userId d = (Inr u, d')"
    by (auto split: prod.splits sum.splits)
  from adjustStock_Inr[OF run] have "sale_items d' = sale_items d" "sales d' = sales d"
    by auto
  with assms(2) show ?thesis
    by (simp add: items_reference_sales_def)
qed

lemma run_all_keeps_items_reference_sales:
  "run_all ops d = Some d' \<Longrightarrow> items_reference_sales d \<Longrightarrow> items_reference_sales d'"
proof (induction ops arbitrary: d)
  case Nil
  then show ?case by simp
next
  case (Cons op ops)
  from Cons.prems(1) obtain d1 where
    step: "run_operation op d = Some d1" and rest: "run_all ops d1 = Some d'"
    by (auto split: option.splits)
  from Cons.IH[OF rest run_operation_keeps_items_reference_sales[OF step Cons.prems(2)]]
  show ?case .
qed

lemma no_sale_items_reference_sales:
  "sale_items d = [] \<Longrightarrow> items_reference_sales d"
  by (simp add: items_reference_sales_def)

end
